theory Spec2Isabelle
  imports Complex_Main
begin

section \<open>Arrays and the numpy operations of the notebook\<close>

text \<open>
  The notebook \<^verbatim>\<open>waspaa_paper.ipynb\<close> works on numpy arrays of floating-point numbers.
  The model idealises a float as a \<^typ>\<open>real\<close>: it is faithful, up to rounding, wherever
  numpy's result is finite, and the theorems below assume what keeps it so (a non-zero
  divisor, a positive argument of \<^verbatim>\<open>1/sqrt\<close>, magnitudes within the range of a float).
  A two-dimensional array carries its shape and its entries; an entry outside the shape is
  never read by a theorem. A one-dimensional array is a list.

  The notebook fixes its parameters in its first code cell (\<^verbatim>\<open>m = 50\<close> training sources,
  \<^verbatim>\<open>M = 49\<close> test sources, \<^verbatim>\<open>d = 2\<close>, \<^verbatim>\<open>epsilon = 1e20\<close>, \<^verbatim>\<open>k = 3\<close>); the cells are
  modelled as functions of \<open>m\<close>, \<open>M\<close>, \<open>d\<close>, \<open>epsilon\<close> and \<open>k\<close>, and the theorems hold for
  every value of them that satisfies their hypotheses, these among them.
\<close>

type_synonym vec = "real list"

record matrix =
  nrows :: nat
  ncols :: nat
  ent :: "nat \<Rightarrow> nat \<Rightarrow> real"

text \<open>The exceptions the notebook's operations can raise.\<close>

datatype error = ValueError | IndexError | LinAlgError | NameError

text \<open>\<^verbatim>\<open>X.T\<close>, \<^verbatim>\<open>np.zeros((r,c))\<close>, \<^verbatim>\<open>np.ones((r,c))\<close>.\<close>

definition np_T :: "matrix \<Rightarrow> matrix" where
  "np_T X = \<lparr>nrows = ncols X, ncols = nrows X, ent = (\<lambda>i j. ent X j i)\<rparr>"

definition np_zeros :: "nat \<Rightarrow> nat \<Rightarrow> matrix" where
  "np_zeros r c = \<lparr>nrows = r, ncols = c, ent = (\<lambda>i j. 0)\<rparr>"

definition np_ones :: "nat \<Rightarrow> nat \<Rightarrow> matrix" where
  "np_ones r c = \<lparr>nrows = r, ncols = c, ent = (\<lambda>i j. 1)\<rparr>"

text \<open>\<^verbatim>\<open>np.c_[X, Y]\<close> puts the columns of \<open>Y\<close> after those of \<open>X\<close>; the row counts
  must agree.\<close>

definition np_c :: "matrix \<Rightarrow> matrix \<Rightarrow> error + matrix" where
  "np_c X Y =
     (if nrows X = nrows Y
      then Inr \<lparr>nrows = nrows X, ncols = ncols X + ncols Y,
                ent = (\<lambda>i j. if j < ncols X then ent X i j else ent Y i (j - ncols X))\<rparr>
      else Inl ValueError)"

text \<open>The operator \<^verbatim>\<open>@\<close> on two-dimensional arrays.\<close>

definition matmul :: "matrix \<Rightarrow> matrix \<Rightarrow> error + matrix" where
  "matmul X Y =
     (if ncols X = nrows Y
      then Inr \<lparr>nrows = nrows X, ncols = ncols Y,
                ent = (\<lambda>i j. \<Sum>k<ncols X. ent X i k * ent Y k j)\<rparr>
      else Inl ValueError)"

text \<open>An elementwise operation, \<^verbatim>\<open>.A1\<close> (the entries row by row as a one-dimensional
  array) and \<^verbatim>\<open>np.diag\<close> of a one-dimensional array.\<close>

definition map_ent :: "(real \<Rightarrow> real) \<Rightarrow> matrix \<Rightarrow> matrix" where
  "map_ent f X = \<lparr>nrows = nrows X, ncols = ncols X, ent = (\<lambda>i j. f (ent X i j))\<rparr>"

definition A1 :: "matrix \<Rightarrow> vec" where
  "A1 X = concat (map (\<lambda>i. map (\<lambda>j. ent X i j) [0..<ncols X]) [0..<nrows X])"

definition np_diag :: "vec \<Rightarrow> matrix" where
  "np_diag v = \<lparr>nrows = length v, ncols = length v,
                 ent = (\<lambda>i j. if i = j then v ! i else 0)\<rparr>"

section \<open>The normalised kernel (notebook cell 7)\<close>

text \<open>
  \<^verbatim>\<open>v = np.matrix(1. /np.sqrt(A.T @ A @ np.ones((m, 1))))\<close>
  \<^verbatim>\<open>S_sqrt = np.diag(v.A1)\<close>
  \<^verbatim>\<open>A_tilde = (A @ S_sqrt)\<close>
\<close>

definition A_tilde :: "nat \<Rightarrow> matrix \<Rightarrow> error + matrix" where
  "A_tilde m A =
     (case matmul (np_T A) A of
        Inl e \<Rightarrow> Inl e
      | Inr G \<Rightarrow>
          (case matmul G (np_ones m 1) of
             Inl e \<Rightarrow> Inl e
           | Inr deg \<Rightarrow>
               (let v = map_ent (\<lambda>x. 1 / sqrt x) deg;
                    S_sqrt = np_diag (A1 v)
                in matmul A S_sqrt)))"

text \<open>The degree of column \<open>j\<close>: entry \<open>j\<close> of \<open>A\<^sup>T A 1\<close>.\<close>

definition degree :: "nat \<Rightarrow> matrix \<Rightarrow> nat \<Rightarrow> real" where
  "degree m A j = (\<Sum>k<m. \<Sum>r<nrows A. ent A r j * ent A r k)"

section \<open>The kernel of the test stage (notebook cell 5, loop body)\<close>

text \<open>The difference of two one-dimensional arrays, with numpy's broadcasting of an array
  of length one.\<close>

definition vsub :: "vec \<Rightarrow> vec \<Rightarrow> error + vec" where
  "vsub x y =
     (if length x = length y then Inr (map (\<lambda>k. x ! k - y ! k) [0..<length x])
      else if length x = 1 then Inr (map (\<lambda>b. x ! 0 - b) y)
      else if length y = 1 then Inr (map (\<lambda>a. a - y ! 0) x)
      else Inl ValueError)"

text \<open>\<^verbatim>\<open>@\<close> of a one-dimensional array with a matrix, and of two one-dimensional arrays
  (on which \<^verbatim>\<open>.T\<close> does nothing).\<close>

definition vec_matmul :: "vec \<Rightarrow> matrix \<Rightarrow> error + vec" where
  "vec_matmul x X =
     (if length x = nrows X
      then Inr (map (\<lambda>j. \<Sum>k<nrows X. x ! k * ent X k j) [0..<ncols X])
      else Inl ValueError)"

definition vec_dot :: "vec \<Rightarrow> vec \<Rightarrow> error + real" where
  "vec_dot x y =
     (if length x = length y then Inr (\<Sum>k<length x. x ! k * y ! k) else Inl ValueError)"

text \<open>
  \<^verbatim>\<open>nom = (test_featVect - train_featVect) @ inv_cov_mat_j @ (test_featVect - train_featVect).T\<close>
\<close>

definition nom :: "vec \<Rightarrow> vec \<Rightarrow> matrix \<Rightarrow> error + real" where
  "nom test_featVect train_featVect inv_cov_mat_j =
     (case vsub test_featVect train_featVect of
        Inl e \<Rightarrow> Inl e
      | Inr dv \<Rightarrow>
          (case vec_matmul dv inv_cov_mat_j of
             Inl e \<Rightarrow> Inl e
           | Inr y \<Rightarrow> vec_dot y dv))"

text \<open>The squared Mahalanobis distance in the words of the specification: the difference
  of the feature vectors, times the matrix \<open>X\<close> (the inverse of a covariance), times the
  difference transposed, for vectors of length \<open>D\<close>.\<close>

definition mahalanobis_sq :: "nat \<Rightarrow> vec \<Rightarrow> vec \<Rightarrow> matrix \<Rightarrow> real" where
  "mahalanobis_sq D t s X = (\<Sum>b<D. (\<Sum>a<D. (t ! a - s ! a) * ent X a b) * (t ! b - s ! b))"

text \<open>
  \<^verbatim>\<open>np.linalg.inv\<close> is numpy's routine, not the repository's: it is a parameter
  \<open>linalg_inv\<close> of the model. \<open>linalg_inv C = Inl e\<close> stands for a call that raises \<open>e\<close>
  and \<open>linalg_inv C = Inr X\<close> for a call that returns the array \<open>X\<close> of finite entries.
  When numpy raises and what it returns is decided by its floating-point factorisation,
  not by the determinant over the reals: no theorem below assumes more of a call than it
  states.

  The Gaussian kernel of two feature vectors under a covariance, as the loop body
  computes it:
  \<^verbatim>\<open>inv_cov_mat_j = np.linalg.inv(cov_matrices[j])\<close>
  \<^verbatim>\<open>nom = (test_featVect - train_featVect) @ inv_cov_mat_j @ (test_featVect - train_featVect).T\<close>
  \<^verbatim>\<open>... np.exp(-nom/epsilon)\<close>
\<close>

definition gauss_kernel ::
  "(matrix \<Rightarrow> error + matrix) \<Rightarrow> real \<Rightarrow> vec \<Rightarrow> vec \<Rightarrow> matrix \<Rightarrow> error + real" where
  "gauss_kernel linalg_inv epsilon test_featVect train_featVect cov_mat_j =
     (case linalg_inv cov_mat_j of
        Inl e \<Rightarrow> Inl e
      | Inr inv_cov_mat_j \<Rightarrow>
          (case nom test_featVect train_featVect inv_cov_mat_j of
             Inl e \<Rightarrow> Inl e
           | Inr q \<Rightarrow> Inr (exp (- q / epsilon))))"

text \<open>
  The value the loop body computes for the pair \<open>(i, j)\<close>. The feature functions
  \<^verbatim>\<open>feature_Vector_testPos\<close> and \<^verbatim>\<open>feature_Vector_src\<close> and the list \<^verbatim>\<open>cov_matrices\<close>
  come from \<^verbatim>\<open>script_rtf\<close> and are parameters here.
  \<^verbatim>\<open>test_featVect = feature_Vector_testPos(index_src=i)\<close>
  \<^verbatim>\<open>train_featVect = feature_Vector_src(index_src=j)\<close>
  \<^verbatim>\<open>inv_cov_mat_j = np.linalg.inv(cov_matrices[j])\<close>
\<close>

definition kernel_entry ::
  "(matrix \<Rightarrow> error + matrix) \<Rightarrow> (nat \<Rightarrow> vec) \<Rightarrow> (nat \<Rightarrow> vec) \<Rightarrow> matrix list \<Rightarrow> real
     \<Rightarrow> nat \<Rightarrow> nat \<Rightarrow> error + real" where
  "kernel_entry linalg_inv feature_Vector_testPos feature_Vector_src cov_matrices epsilon i j =
     (let test_featVect = feature_Vector_testPos i;
          train_featVect = feature_Vector_src j
      in if length cov_matrices \<le> j then Inl IndexError
         else gauss_kernel linalg_inv epsilon test_featVect train_featVect (cov_matrices ! j))"

text \<open>\<open>X\<close> is the inverse of the \<open>D \<times> D\<close> array \<open>C\<close>: both products are the identity.\<close>

definition is_inverse :: "nat \<Rightarrow> matrix \<Rightarrow> matrix \<Rightarrow> bool" where
  "is_inverse D C X \<longleftrightarrow>
     nrows C = D \<and> ncols C = D \<and> nrows X = D \<and> ncols X = D
     \<and> (\<forall>i<D. \<forall>j<D. (\<Sum>k<D. ent C i k * ent X k j) = (if i = j then 1 else 0))
     \<and> (\<forall>i<D. \<forall>j<D. (\<Sum>k<D. ent X i k * ent C k j) = (if i = j then 1 else 0))"

text \<open>
  The largest float, and a condition under which numpy's evaluation of the kernel stays
  finite: the entries of the difference of the feature vectors and of the returned inverse
  are bounded by \<open>B\<close>, so that no product or partial sum of the quadratic form exceeds
  \<open>D\<^sup>2 (max 1 B)\<^sup>3\<close>, which is within the range of a float, and the argument of
  \<^verbatim>\<open>np.exp\<close> is between \<open>-709\<close> and \<open>709\<close>, where the exponential neither overflows nor
  underflows.
\<close>

definition float_max :: real where
  "float_max = (2 - 1 / 2 ^ 52) * 2 ^ 1023"

definition kernel_in_range :: "real \<Rightarrow> nat \<Rightarrow> vec \<Rightarrow> vec \<Rightarrow> matrix \<Rightarrow> real \<Rightarrow> bool" where
  "kernel_in_range B D t s X epsilon \<longleftrightarrow>
     (\<forall>a<D. \<bar>t ! a - s ! a\<bar> \<le> B) \<and> (\<forall>a<D. \<forall>b<D. \<bar>ent X a b\<bar> \<le> B)
     \<and> real (D * D) * max 1 B ^ 3 \<le> float_max
     \<and> \<bar>mahalanobis_sq D t s X / epsilon\<bar> \<le> 709"

section \<open>The notebook's state\<close>

text \<open>
  Arrays live in a heap and a variable holds the address of its array, so that an in-place
  write through one variable is seen through every variable bound to the same array.
  \<open>W_ref\<close>, \<open>eig_vects_ref\<close> and \<open>A_ref\<close> are the variables \<^verbatim>\<open>W\<close>, \<^verbatim>\<open>eig_vects\<close> and
  \<^verbatim>\<open>A\<close>; \<^verbatim>\<open>A\<close> is unbound until cell 4 runs. \<^verbatim>\<open>eig_vals\<close> is never written in place and
  \<open>eig_vals_var\<close> holds it as a value.
\<close>

record state =
  heap :: "nat \<Rightarrow> matrix"
  nxt :: nat
  W_ref :: nat
  eig_vals_var :: vec
  eig_vects_ref :: nat
  A_ref :: "nat option"

definition alloc :: "matrix \<Rightarrow> state \<Rightarrow> nat \<times> state" where
  "alloc X s = (nxt s, s\<lparr>heap := (heap s)(nxt s := X), nxt := Suc (nxt s)\<rparr>)"

text \<open>A \<^verbatim>\<open>for\<close> loop over a list of indices: the body runs on the state, and the first
  exception ends the loop, leaving the state as it was when it was raised.\<close>

fun for_loop :: "('i \<Rightarrow> 's \<Rightarrow> 's \<times> error option) \<Rightarrow> 'i list \<Rightarrow> 's \<Rightarrow> 's \<times> error option" where
  "for_loop body [] s = (s, None)"
| "for_loop body (x # xs) s =
     (case body x s of
        (s', None) \<Rightarrow> for_loop body xs s'
      | (s', Some e) \<Rightarrow> (s', Some e))"

text \<open>
  Cell 4:
  \<^verbatim>\<open>A = W.copy()\<close>
  \<^verbatim>\<open>A = np.c_[A.T, np.zeros((m,M))].T\<close>
  \<^verbatim>\<open>np.c_\<close> builds a new array, and \<^verbatim>\<open>A\<close> is bound to its transposed view, the only
  reference to it: the heap holds the array as \<^verbatim>\<open>A\<close> sees it.
\<close>

definition cell4 :: "nat \<Rightarrow> nat \<Rightarrow> state \<Rightarrow> state \<times> error option" where
  "cell4 m M s =
     (let (a, s1) = alloc (heap s (W_ref s)) s;
          s2 = s1\<lparr>A_ref := Some a\<rparr>
      in case np_c (np_T (heap s2 a)) (np_zeros m M) of
           Inl e \<Rightarrow> (s2, Some e)
         | Inr X \<Rightarrow> (let (b, s3) = alloc (np_T X) s2 in (s3\<lparr>A_ref := Some b\<rparr>, None)))"

text \<open>The assignment \<^verbatim>\<open>A[r,c] = x\<close>: an in-place write into the array \<^verbatim>\<open>A\<close> is bound to.\<close>

definition setitem_A :: "nat \<Rightarrow> nat \<Rightarrow> real \<Rightarrow> state \<Rightarrow> state \<times> error option" where
  "setitem_A r c x s =
     (case A_ref s of
        None \<Rightarrow> (s, Some NameError)
      | Some a \<Rightarrow>
          if r < nrows (heap s a) \<and> c < ncols (heap s a)
          then (s\<lparr>heap := (heap s)(a := (heap s a)\<lparr>ent := (ent (heap s a))(r := (ent (heap s a) r)(c := x))\<rparr>)\<rparr>, None)
          else (s, Some IndexError))"

text \<open>
  Cell 5:
  \<^verbatim>\<open>for i in tqdm(range(M)):\<close>
  \<^verbatim>\<open>    for j in range(m):\<close>
  \<^verbatim>\<open>        ...\<close>
  \<^verbatim>\<open>        A[i+m,j] = np.exp(-nom/epsilon)\<close>
\<close>

definition cell5_body ::
  "(matrix \<Rightarrow> error + matrix) \<Rightarrow> (nat \<Rightarrow> vec) \<Rightarrow> (nat \<Rightarrow> vec) \<Rightarrow> matrix list \<Rightarrow> real
     \<Rightarrow> nat \<Rightarrow> nat \<Rightarrow> nat \<Rightarrow> state \<Rightarrow> state \<times> error option" where
  "cell5_body linalg_inv feature_Vector_testPos feature_Vector_src cov_matrices epsilon m i j s =
     (case kernel_entry linalg_inv feature_Vector_testPos feature_Vector_src cov_matrices
             epsilon i j of
        Inl e \<Rightarrow> (s, Some e)
      | Inr x \<Rightarrow> setitem_A (i + m) j x s)"

definition cell5 ::
  "(matrix \<Rightarrow> error + matrix) \<Rightarrow> (nat \<Rightarrow> vec) \<Rightarrow> (nat \<Rightarrow> vec) \<Rightarrow> matrix list \<Rightarrow> real
     \<Rightarrow> nat \<Rightarrow> nat \<Rightarrow> state \<Rightarrow> state \<times> error option" where
  "cell5 linalg_inv feature_Vector_testPos feature_Vector_src cov_matrices epsilon m M s =
     for_loop
       (\<lambda>i. for_loop
              (cell5_body linalg_inv feature_Vector_testPos feature_Vector_src cov_matrices
                 epsilon m i)
              [0..<m])
       [0..<M] s"

text \<open>Cells 4 and 5 in sequence: the construction of \<^verbatim>\<open>A\<close>.\<close>

definition build_A ::
  "(matrix \<Rightarrow> error + matrix) \<Rightarrow> (nat \<Rightarrow> vec) \<Rightarrow> (nat \<Rightarrow> vec) \<Rightarrow> matrix list \<Rightarrow> real
     \<Rightarrow> nat \<Rightarrow> nat \<Rightarrow> state \<Rightarrow> state \<times> error option" where
  "build_A linalg_inv feature_Vector_testPos feature_Vector_src cov_matrices epsilon m M s =
     (case cell4 m M s of
        (s1, Some e) \<Rightarrow> (s1, Some e)
      | (s1, None) \<Rightarrow>
          cell5 linalg_inv feature_Vector_testPos feature_Vector_src cov_matrices epsilon m M s1)"

text \<open>A state is well formed when its variables are bound to allocated arrays.\<close>

definition wf_state :: "state \<Rightarrow> bool" where
  "wf_state s = (W_ref s < nxt s \<and> eig_vects_ref s < nxt s)"

section \<open>The training kernel and the Nystrom extension\<close>

text \<open>
  Modelled from the spec: \<^verbatim>\<open>compute_affinity_matrix\<close> is defined in \<^verbatim>\<open>script_rtf\<close>,
  which is not among the sources; the notebook only calls it, as
  \<^verbatim>\<open>W = compute_affinity_matrix(cov_matrices, training_Set_xyz, m=m)\<close>.
  By the specification its entry \<open>(i, j)\<close> is the Gaussian kernel of the training feature
  vectors \<open>i\<close> and \<open>j\<close> under a covariance; \<open>wcov i j\<close> is the covariance it uses for the
  pair, which the specification leaves open. An array \<open>W\<close> is such a kernel matrix when
  it is \<open>m \<times> m\<close> and its entries are these kernel values.
\<close>

definition training_affinity ::
  "(matrix \<Rightarrow> error + matrix) \<Rightarrow> real \<Rightarrow> (nat \<Rightarrow> vec) \<Rightarrow> (nat \<Rightarrow> nat \<Rightarrow> matrix) \<Rightarrow> nat \<Rightarrow> matrix
     \<Rightarrow> bool" where
  "training_affinity linalg_inv epsilon feature_Vector_src wcov m W \<longleftrightarrow>
     nrows W = m \<and> ncols W = m
     \<and> (\<forall>i<m. \<forall>j<m. gauss_kernel linalg_inv epsilon (feature_Vector_src i)
                        (feature_Vector_src j) (wcov i j) = Inr (ent W i j))"

text \<open>
  Modelled from the spec: the Nystrom extension is computed by
  \<^verbatim>\<open>compute_d_left_sing_vect\<close> of \<^verbatim>\<open>script_rtf\<close>, which is not among the sources. The
  specification, and the notebook's own description of the test stage
  (\<^verbatim>\<open>psi_j = 1/sqrt(lambda_j) N phi_j\<close> with \<^verbatim>\<open>N = A S^(-1/2)\<close>, the embedding of sample
  \<open>i\<close> being \<open>[\<psi>\<^sub>1\<^sup>i, \<psi>\<^sub>2\<^sup>i]\<close> for eigenpairs numbered from 0), give the coordinate of row
  \<open>i\<close> for the eigenpair \<open>j\<close> as \<open>\<psi>\<^sub>j\<^sup>i = (1 / sqrt \<lambda>\<^sub>j) * (A_tilde \<phi>\<^sub>j)\<^sub>i\<close>, where \<open>\<lambda>\<^sub>j\<close> is entry
  \<open>j\<close> of \<^verbatim>\<open>eig_vals\<close> and \<open>\<phi>\<^sub>j\<close> column \<open>j\<close> of \<^verbatim>\<open>eig_vects\<close>. Only this formula is
  modelled, for every \<open>j\<close>: in which order the function takes the eigenpairs and what it
  does with an eigenvalue that is not positive is not.
\<close>

definition psi :: "vec \<Rightarrow> matrix \<Rightarrow> matrix \<Rightarrow> nat \<Rightarrow> nat \<Rightarrow> real" where
  "psi eig_vals eig_vects At j i =
     (1 / sqrt (eig_vals ! j)) * (\<Sum>k<ncols At. ent At i k * ent eig_vects k j)"

text \<open>\<open>(\<lambda>, \<phi>\<^sub>j)\<close> is an eigenpair of the \<open>m \<times> m\<close> array \<open>X\<close>, as \<^verbatim>\<open>np.linalg.eig\<close>
  returns them for \<^verbatim>\<open>W\<close>.\<close>

definition is_eigenpair :: "nat \<Rightarrow> matrix \<Rightarrow> real \<Rightarrow> matrix \<Rightarrow> nat \<Rightarrow> bool" where
  "is_eigenpair m X lam eig_vects j =
     (\<forall>i\<in>{..<m}. (\<Sum>k<m. ent X i k * ent eig_vects k j) = lam * ent eig_vects i j)"

text \<open>
  Cell 8 calls \<^verbatim>\<open>compute_d_left_sing_vect\<close>, a parameter here, on the variables of the
  state:
  \<^verbatim>\<open>singular_vects = compute_d_left_sing_vect(m+M, eig_vals, eig_vects, A_tilde, d=d)\<close>
\<close>

definition cell8 ::
  "(nat \<Rightarrow> vec \<Rightarrow> matrix \<Rightarrow> matrix \<Rightarrow> nat \<Rightarrow> error + matrix) \<Rightarrow> nat \<Rightarrow> nat \<Rightarrow> nat \<Rightarrow> state \<Rightarrow> matrix
     \<Rightarrow> error + matrix" where
  "cell8 compute_d_left_sing_vect m M d s At =
     compute_d_left_sing_vect (m + M) (eig_vals_var s) (heap s (eig_vects_ref s)) At d"

section \<open>The predictions and the ground truth (notebook cell 9)\<close>

text \<open>
  Cell 9, with \<^verbatim>\<open>estimate_theta_i\<close> a parameter:
  \<^verbatim>\<open>thetas_pred = []\<close>
  \<^verbatim>\<open>thetas_gt = []\<close>
  \<^verbatim>\<open>for i in range(M):\<close>
  \<^verbatim>\<open>    theta_i_pred = estimate_theta_i(i, singular_vects, train_featVects, training_Set_spherical)\<close>
  \<^verbatim>\<open>    thetas_pred.append(theta_i_pred)\<close>
  \<^verbatim>\<open>    theta_i_gt = np.array([test_Set_spherical[i][1], test_Set_spherical[i][2]])\<close>
  \<^verbatim>\<open>    thetas_gt.append(theta_i_gt)\<close>
\<close>

record lists =
  thetas_pred :: "vec list"
  thetas_gt :: "vec list"

definition cell9_body ::
  "(nat \<Rightarrow> matrix \<Rightarrow> vec list \<Rightarrow> vec list \<Rightarrow> error + vec) \<Rightarrow> matrix \<Rightarrow> vec list \<Rightarrow> vec list
     \<Rightarrow> vec list \<Rightarrow> nat \<Rightarrow> lists \<Rightarrow> lists \<times> error option" where
  "cell9_body est singular_vects train_featVects training_Set_spherical test_Set_spherical i l =
     (case est i singular_vects train_featVects training_Set_spherical of
        Inl e \<Rightarrow> (l, Some e)
      | Inr theta_i_pred \<Rightarrow>
          (let l1 = l\<lparr>thetas_pred := thetas_pred l @ [theta_i_pred]\<rparr>
           in if i < length test_Set_spherical \<and> 2 < length (test_Set_spherical ! i)
              then (l1\<lparr>thetas_gt := thetas_gt l1
                          @ [[test_Set_spherical ! i ! 1, test_Set_spherical ! i ! 2]]\<rparr>, None)
              else (l1, Some IndexError)))"

definition cell9 ::
  "(nat \<Rightarrow> matrix \<Rightarrow> vec list \<Rightarrow> vec list \<Rightarrow> error + vec) \<Rightarrow> nat \<Rightarrow> matrix \<Rightarrow> vec list \<Rightarrow> vec list
     \<Rightarrow> vec list \<Rightarrow> lists \<times> error option" where
  "cell9 est M singular_vects train_featVects training_Set_spherical test_Set_spherical =
     for_loop
       (cell9_body est singular_vects train_featVects training_Set_spherical test_Set_spherical)
       [0..<M] \<lparr>thetas_pred = [], thetas_gt = []\<rparr>"

text \<open>Two ground truths have the same shape when they have as many rows and their rows
  are as long: they differ in the angles only.\<close>

definition same_shape :: "vec list \<Rightarrow> vec list \<Rightarrow> bool" where
  "same_shape xs ys = (map length xs = map length ys)"

section \<open>Small concrete inputs\<close>

text \<open>A constant square array, an array given by its rows, and a state before the test
  stage whose every address holds the array \<open>X\<close>: \<^verbatim>\<open>W\<close> is at address 0, \<^verbatim>\<open>eig_vects\<close>
  at address 1, and \<^verbatim>\<open>A\<close> is not bound yet.\<close>

definition const_matrix :: "nat \<Rightarrow> real \<Rightarrow> matrix" where
  "const_matrix n x = \<lparr>nrows = n, ncols = n, ent = (\<lambda>i j. x)\<rparr>"

definition matrix_of_rows :: "real list list \<Rightarrow> matrix" where
  "matrix_of_rows rs =
     \<lparr>nrows = length rs, ncols = (case rs of [] \<Rightarrow> 0 | r # _ \<Rightarrow> length r),
      ent = (\<lambda>i j. rs ! i ! j)\<rparr>"

definition start_state :: "matrix \<Rightarrow> vec \<Rightarrow> state" where
  "start_state X ev =
     \<lparr>heap = (\<lambda>a. X), nxt = 2, W_ref = 0, eig_vals_var = ev, eig_vects_ref = 1, A_ref = None\<rparr>"

text \<open>
  \<^verbatim>\<open>np.linalg.inv\<close> on the diagonal arrays used as concrete inputs below. The pivots of
  a diagonal array are its diagonal entries: numpy raises \<^verbatim>\<open>LinAlgError\<close> when one of
  them is zero and returns the diagonal array of the reciprocals otherwise.
\<close>

definition diag_inv :: "matrix \<Rightarrow> error + matrix" where
  "diag_inv C =
     (if nrows C \<noteq> ncols C \<or> list_ex (\<lambda>i. ent C i i = 0) [0..<nrows C] then Inl LinAlgError
      else Inr \<lparr>nrows = nrows C, ncols = ncols C,
                ent = (\<lambda>i j. if i = j then 1 / ent C i i else 0)\<rparr>)"

text \<open>
  Two training samples with one-dimensional feature vectors \<open>[0]\<close> and \<open>[sqrt (ln (4/3))]\<close>
  and covariance \<open>[[1]]\<close>, for which the kernel value of the pair is \<open>3/4\<close> when
  \<open>epsilon = 1\<close>; the kernel matrix \<^verbatim>\<open>W\<close> of the two samples, and its eigenvectors of
  unit length as the columns of an array, for the eigenvalues \<open>7/4\<close> and \<open>1/4\<close>.
\<close>

definition pair_feature :: "nat \<Rightarrow> vec" where
  "pair_feature i = [if i = 0 then 0 else sqrt (ln (4 / 3))]"

definition pair_W :: matrix where
  "pair_W = matrix_of_rows [[1, 3 / 4], [3 / 4, 1]]"

definition pair_eig_vects :: matrix where
  "pair_eig_vects = matrix_of_rows [[1 / sqrt 2, 1 / sqrt 2], [1 / sqrt 2, - (1 / sqrt 2)]]"

text \<open>
  A covariance of shape \<open>2 \<times> 2\<close> and its inverse, which \<^verbatim>\<open>np.linalg.inv\<close> returns for
  it; two test feature vectors and two training feature vectors of length 2; and the
  kernel matrix of the two training feature vectors under that covariance when
  \<open>epsilon = 1\<close>.
\<close>

definition cov_2 :: matrix where
  "cov_2 = matrix_of_rows [[2, 1], [1, 1]]"

definition inv_cov_2 :: matrix where
  "inv_cov_2 = matrix_of_rows [[1, - 1], [- 1, 2]]"

definition unit_feature :: "nat \<Rightarrow> vec" where
  "unit_feature i = (if i = 0 then [1, 0] else [0, 1])"

definition corner_feature :: "nat \<Rightarrow> vec" where
  "corner_feature j = (if j = 0 then [0, 0] else [1, 1])"

definition plane_W :: matrix where
  "plane_W = matrix_of_rows [[1, exp (- 1)], [exp (- 1), 1]]"

text \<open>\<^verbatim>\<open>np.linalg.inv\<close> in the runs whose covariances all are \<open>cov_2\<close>.\<close>

definition linalg_inv_cov_2 :: "matrix \<Rightarrow> error + matrix" where
  "linalg_inv_cov_2 C = Inr inv_cov_2"

section \<open>Lemmas on the array operations\<close>

lemma concat_singletons: "concat (map (\<lambda>i. [g i]) xs) = map g xs"
  by (induction xs) simp_all

lemma A1_column: "ncols X = 1 \<Longrightarrow> A1 X = map (\<lambda>i. ent X i 0) [0..<nrows X]"
  by (simp add: A1_def concat_singletons)

lemma sum_diag:
  fixes a v :: "nat \<Rightarrow> real"
  shows "(\<Sum>k<m. a k * (if k = j then v k else 0)) = (if j < m then a j * v j else 0)"
proof -
  have "(\<Sum>k<m. a k * (if k = j then v k else 0)) = (\<Sum>k<m. if k = j then a k * v k else 0)"
    by (rule sum.cong) simp_all
  then show ?thesis
    by (simp add: sum.delta)
qed

lemma A_tilde_shape_entries:
  assumes "ncols A = m"
  shows "\<exists>At. A_tilde m A = Inr At \<and> nrows At = nrows A \<and> ncols At = m \<and>
           (\<forall>i j. j < m \<longrightarrow> ent At i j = ent A i j * (1 / sqrt (degree m A j)))"
  using assms
  by (simp add: A_tilde_def matmul_def np_T_def np_ones_def np_diag_def map_ent_def
      A1_column degree_def sum_diag Let_def)

lemma A_tilde_as_product:
  assumes "ncols A = m"
  shows "A_tilde m A = matmul A (np_diag (map (\<lambda>j. 1 / sqrt (degree m A j)) [0..<m]))"
  using assms
  by (simp add: A_tilde_def matmul_def np_T_def np_ones_def map_ent_def A1_column degree_def
      Let_def)

section \<open>The normalised kernel is a column scaling\<close>

text \<open>
  C3. For an array \<open>A\<close> with \<open>m\<close> columns whose degrees \<open>(A\<^sup>T A 1)\<^sub>j\<close> are positive, cell 7
  returns \<open>A \<cdot> S\<^sup>-\<^sup>1\<^sup>/\<^sup>2\<close> with \<open>S = diag (A\<^sup>T A 1)\<close>: the result has the shape of \<open>A\<close>, and
  its column \<open>j\<close> is column \<open>j\<close> of \<open>A\<close> multiplied by \<open>1 / sqrt ((A\<^sup>T A 1)\<^sub>j)\<close>.
\<close>

theorem A_tilde_column_scaling:
  assumes "ncols A = m" and "\<forall>j<m. 0 < degree m A j"
  shows "\<exists>At. A_tilde m A = Inr At
           \<and> matmul A (np_diag (map (\<lambda>j. 1 / sqrt (degree m A j)) [0..<m])) = Inr At
           \<and> nrows At = nrows A \<and> ncols At = m
           \<and> (\<forall>i<nrows A. \<forall>j<m. ent At i j = ent A i j * (1 / sqrt (degree m A j)))"
proof -
  from A_tilde_shape_entries [OF assms(1)] obtain At where
    At: "A_tilde m A = Inr At" "nrows At = nrows A" "ncols At = m"
      "\<forall>i j. j < m \<longrightarrow> ent At i j = ent A i j * (1 / sqrt (degree m A j))"
    by blast
  moreover have "matmul A (np_diag (map (\<lambda>j. 1 / sqrt (degree m A j)) [0..<m])) = Inr At"
    using A_tilde_as_product [OF assms(1)] At(1) by simp
  ultimately show ?thesis
    by blast
qed

theorem A_tilde_column_scaling_witness:
  "ncols \<lparr>nrows = 2, ncols = 1, ent = (\<lambda>i j. 1)\<rparr> = 1
   \<and> 0 < degree 1 \<lparr>nrows = 2, ncols = 1, ent = (\<lambda>i j. 1)\<rparr> 0
   \<and> (\<exists>At. A_tilde 1 \<lparr>nrows = 2, ncols = 1, ent = (\<lambda>i j. 1)\<rparr> = Inr At
          \<and> nrows At = 2 \<and> ncols At = 1 \<and> ent At 1 0 = 1 / sqrt 2)"
  using A_tilde_column_scaling [of "\<lparr>nrows = 2, ncols = 1, ent = (\<lambda>i j. 1)\<rparr>" 1]
  by (auto simp add: degree_def)

section \<open>Loops\<close>

lemma for_loop_append:
  "for_loop body (xs @ ys) s =
     (case for_loop body xs s of (s', None) \<Rightarrow> for_loop body ys s' | (s', Some e) \<Rightarrow> (s', Some e))"
  by (induction xs arbitrary: s) (auto split: prod.splits option.splits)

lemma for_loop_frame:
  assumes "\<And>x s. x \<in> set xs \<Longrightarrow> P s \<Longrightarrow> P (fst (body x s))" and "P s"
  shows "P (fst (for_loop body xs s))"
  using assms
proof (induction xs arbitrary: s)
  case Nil
  then show ?case by simp
next
  case (Cons x xs)
  from Cons.prems have P': "P (fst (body x s))"
    by simp
  show ?case
  proof (cases "body x s")
    case (Pair s' r)
    with P' have "P s'" by simp
    with Pair Cons.IH [of s'] Cons.prems(1) show ?thesis
      by (cases r) simp_all
  qed
qed

lemma for_range_success:
  assumes "I 0 s"
    and "\<And>k s. k < n \<Longrightarrow> I k s \<Longrightarrow> \<exists>s'. body k s = (s', None) \<and> I (Suc k) s'"
  shows "\<exists>s'. for_loop body [0..<n] s = (s', None) \<and> I n s'"
  using assms(2)
proof (induction n)
  case 0
  with assms(1) show ?case by simp
next
  case (Suc n)
  from Suc.IH Suc.prems obtain s1 where s1: "for_loop body [0..<n] s = (s1, None)" "I n s1"
    by (metis less_Suc_eq)
  from Suc.prems [of n s1] s1(2) obtain s2 where "body n s1 = (s2, None)" "I (Suc n) s2"
    by blast
  with s1 show ?case
    by (simp add: for_loop_append)
qed


section \<open>The value of a kernel entry\<close>

lemma nom_value:
  assumes "length t = D" "length s = D" "nrows X = D" "ncols X = D"
  shows "nom t s X = Inr (mahalanobis_sq D t s X)"
proof -
  let ?dv = "map (\<lambda>k. t ! k - s ! k) [0..<D]"
  let ?y = "map (\<lambda>j. \<Sum>k<D. ?dv ! k * ent X k j) [0..<D]"
  have "(\<Sum>b<D. ?y ! b * ?dv ! b) = mahalanobis_sq D t s X"
    unfolding mahalanobis_sq_def
    by (intro sum.cong refl arg_cong2 [where f = "(*)"]) simp_all
  then show ?thesis
    using assms by (simp add: nom_def vsub_def vec_matmul_def vec_dot_def)
qed

lemma gauss_kernel_value:
  assumes "linv C = Inr X" "nrows X = D" "ncols X = D" "length t = D" "length s = D"
  shows "gauss_kernel linv eps t s C = Inr (exp (- mahalanobis_sq D t s X / eps))"
  using assms by (simp add: gauss_kernel_def nom_value [of _ D])


lemma kernel_entry_gauss:
  assumes "j < length covs"
  shows "kernel_entry linv ftest fsrc covs eps i j
           = gauss_kernel linv eps (ftest i) (fsrc j) (covs ! j)"
  using assms by (simp add: kernel_entry_def)

lemma kernel_entry_value:
  assumes "j < length covs" "linv (covs ! j) = Inr X" "nrows X = D" "ncols X = D"
    "length (ftest i) = D" "length (fsrc j) = D"
  shows "kernel_entry linv ftest fsrc covs eps i j
           = Inr (exp (- mahalanobis_sq D (ftest i) (fsrc j) X / eps))"
  using assms by (simp add: kernel_entry_gauss gauss_kernel_value [of _ _ _ D])


lemma mahalanobis_sq_same: "mahalanobis_sq D t t X = 0"
  by (simp add: mahalanobis_sq_def)

text \<open>An array has at most one inverse, so the squared Mahalanobis distance under the
  inverse of a covariance does not depend on how the inverse was computed.\<close>

lemma inverse_unique:
  assumes X: "is_inverse D C X" and Y: "is_inverse D C Y" and a: "a < D" and b: "b < D"
  shows "ent X a b = ent Y a b"
proof -
  from X have XC: "\<forall>i<D. \<forall>j<D. (\<Sum>k<D. ent X i k * ent C k j) = (if i = j then 1 else 0)"
    by (simp add: is_inverse_def)
  from Y have CY: "\<forall>i<D. \<forall>j<D. (\<Sum>k<D. ent C i k * ent Y k j) = (if i = j then 1 else 0)"
    by (simp add: is_inverse_def)
  have "ent X a b = (\<Sum>k<D. ent X a k * (if k = b then 1 else 0))"
    using b by (simp add: sum_diag)
  also have "\<dots> = (\<Sum>k<D. ent X a k * (\<Sum>l<D. ent C k l * ent Y l b))"
    using CY b by (intro sum.cong refl) simp
  also have "\<dots> = (\<Sum>k<D. \<Sum>l<D. ent X a k * ent C k l * ent Y l b)"
    by (simp add: sum_distrib_left mult.assoc)
  also have "\<dots> = (\<Sum>l<D. \<Sum>k<D. ent X a k * ent C k l * ent Y l b)"
    by (rule sum.swap)
  also have "\<dots> = (\<Sum>l<D. (\<Sum>k<D. ent X a k * ent C k l) * ent Y l b)"
    by (simp add: sum_distrib_right)
  also have "\<dots> = (\<Sum>l<D. (if a = l then 1 else 0) * ent Y l b)"
    using XC a by (intro sum.cong refl) simp
  also have "\<dots> = (\<Sum>l<D. ent Y l b * (if l = a then 1 else 0))"
    by (intro sum.cong refl) simp
  also have "\<dots> = ent Y a b"
    using a by (simp add: sum_diag)
  finally show ?thesis .
qed

lemma mahalanobis_sq_inverse_unique:
  assumes "is_inverse D C X" "is_inverse D C Y"
  shows "mahalanobis_sq D t s X = mahalanobis_sq D t s Y"
  unfolding mahalanobis_sq_def
  by (intro sum.cong refl arg_cong2 [where f = "(*)"]) (simp_all add: inverse_unique [OF assms])

lemma is_inverse_shape:
  assumes "is_inverse D C X"
  shows "nrows X = D" "ncols X = D"
  using assms by (simp_all add: is_inverse_def)

section \<open>Cells 4 and 5 on the state\<close>

lemma cell4_success:
  assumes "ncols (heap s (W_ref s)) = m"
  shows "cell4 m M s =
           (s\<lparr>heap := (heap s)(nxt s := heap s (W_ref s),
                   Suc (nxt s) := \<lparr>nrows = nrows (heap s (W_ref s)) + M, ncols = m,
                      ent = (\<lambda>i j. if i < nrows (heap s (W_ref s))
                                    then ent (heap s (W_ref s)) i j else 0)\<rparr>),
               nxt := Suc (Suc (nxt s)), A_ref := Some (Suc (nxt s))\<rparr>, None)"
  using assms by (simp add: cell4_def alloc_def np_c_def np_T_def np_zeros_def Let_def cong: if_cong)

lemma cell4_frame:
  "\<exists>h n r. fst (cell4 m M s) = s\<lparr>heap := h, nxt := n, A_ref := r\<rparr>
           \<and> (\<forall>b<nxt s. h b = heap s b)"
proof (cases "ncols (heap s (W_ref s)) = m")
  case True
  show ?thesis
    unfolding cell4_success [OF True] by (rule exI, rule exI, rule exI) auto
next
  case False
  then have "fst (cell4 m M s) = s\<lparr>heap := (heap s)(nxt s := heap s (W_ref s)),
        nxt := Suc (nxt s), A_ref := Some (nxt s)\<rparr>"
    by (simp add: cell4_def alloc_def np_c_def np_T_def np_zeros_def Let_def)
  then show ?thesis
    by (intro exI [of _ "(heap s)(nxt s := heap s (W_ref s))"] exI [of _ "Suc (nxt s)"] exI [of _ "Some (nxt s)"]) auto
qed

lemma setitem_A_success:
  assumes "A_ref s = Some a" "r < nrows (heap s a)" "c < ncols (heap s a)"
  shows "setitem_A r c x s =
           (s\<lparr>heap := (heap s)(a := (heap s a)\<lparr>ent := (ent (heap s a))(r := (ent (heap s a) r)(c := x))\<rparr>)\<rparr>,
            None)"
  using assms by (simp add: setitem_A_def)

lemma cell5_inner_success:
  assumes A: "A_ref s = Some a"
    and shape: "i + m < nrows (heap s a)" "m \<le> ncols (heap s a)"
    and k: "\<forall>j<m. kernel_entry linv ftest fsrc covs eps i j = Inr (x j)"
  shows "\<exists>X. for_loop (cell5_body linv ftest fsrc covs eps m i) [0..<m] s
                = (s\<lparr>heap := (heap s)(a := X)\<rparr>, None)
            \<and> nrows X = nrows (heap s a) \<and> ncols X = ncols (heap s a)
            \<and> (\<forall>r c. ent X r c = (if r = i + m \<and> c < m then x c else ent (heap s a) r c))"
proof -
  define I where "I n s' \<longleftrightarrow> (\<exists>X. s' = s\<lparr>heap := (heap s)(a := X)\<rparr>
      \<and> nrows X = nrows (heap s a) \<and> ncols X = ncols (heap s a)
      \<and> (\<forall>r c. ent X r c = (if r = i + m \<and> c < n then x c else ent (heap s a) r c)))"
    for n s'
  have init: "I 0 s"
    unfolding I_def by (rule exI [of _ "heap s a"]) simp
  have step: "\<exists>s''. cell5_body linv ftest fsrc covs eps m i n s' = (s'', None) \<and> I (Suc n) s''"
    if "n < m" "I n s'" for n s'
  proof -
    from that(2) obtain X where X: "s' = s\<lparr>heap := (heap s)(a := X)\<rparr>"
      "nrows X = nrows (heap s a)" "ncols X = ncols (heap s a)"
      "\<forall>r c. ent X r c = (if r = i + m \<and> c < n then x c else ent (heap s a) r c)"
      unfolding I_def by blast
    let ?X' = "X\<lparr>ent := (ent X)(i + m := (ent X (i + m))(n := x n))\<rparr>"
    have "cell5_body linv ftest fsrc covs eps m i n s' = setitem_A (i + m) n (x n) s'"
      using k that(1) by (simp add: cell5_body_def)
    also have "\<dots> = (s\<lparr>heap := (heap s)(a := ?X')\<rparr>, None)"
      using X(1-3) A shape that(1) by (simp add: setitem_A_def)
    finally have "cell5_body linv ftest fsrc covs eps m i n s' = (s\<lparr>heap := (heap s)(a := ?X')\<rparr>, None)" .
    moreover have "I (Suc n) (s\<lparr>heap := (heap s)(a := ?X')\<rparr>)"
      unfolding I_def using X(2-4) by (intro exI [of _ ?X']) (auto simp: less_Suc_eq)
    ultimately show ?thesis
      by blast
  qed
  from for_range_success [where I = I and s = s and n = m
      and body = "cell5_body linv ftest fsrc covs eps m i", OF init step]
  obtain s' where s': "for_loop (cell5_body linv ftest fsrc covs eps m i) [0..<m] s = (s', None)"
    "I m s'"
    by blast
  from s'(2) obtain X where "s' = s\<lparr>heap := (heap s)(a := X)\<rparr>"
      "nrows X = nrows (heap s a)" "ncols X = ncols (heap s a)"
      "\<forall>r c. ent X r c = (if r = i + m \<and> c < m then x c else ent (heap s a) r c)"
    unfolding I_def by blast
  with s'(1) show ?thesis
    by (intro exI [of _ X]) simp
qed

lemma cell5_success:
  assumes A: "A_ref s = Some a"
    and shape: "m + M \<le> nrows (heap s a)" "m \<le> ncols (heap s a)"
    and k: "\<forall>i<M. \<forall>j<m. kernel_entry linv ftest fsrc covs eps i j = Inr (x i j)"
  shows "\<exists>X. cell5 linv ftest fsrc covs eps m M s = (s\<lparr>heap := (heap s)(a := X)\<rparr>, None)
            \<and> nrows X = nrows (heap s a) \<and> ncols X = ncols (heap s a)
            \<and> (\<forall>r c. ent X r c = (if m \<le> r \<and> r < m + M \<and> c < m then x (r - m) c
                                   else ent (heap s a) r c))"
proof -
  define I where "I n s' \<longleftrightarrow> (\<exists>X. s' = s\<lparr>heap := (heap s)(a := X)\<rparr>
      \<and> nrows X = nrows (heap s a) \<and> ncols X = ncols (heap s a)
      \<and> (\<forall>r c. ent X r c = (if m \<le> r \<and> r < m + n \<and> c < m then x (r - m) c
                              else ent (heap s a) r c)))"
    for n s'
  have init: "I 0 s"
    unfolding I_def by (rule exI [of _ "heap s a"]) simp
  have step: "\<exists>s''. for_loop (cell5_body linv ftest fsrc covs eps m n) [0..<m] s' = (s'', None)
                 \<and> I (Suc n) s''"
    if "n < M" "I n s'" for n s'
  proof -
    from that(2) obtain X where X: "s' = s\<lparr>heap := (heap s)(a := X)\<rparr>"
      "nrows X = nrows (heap s a)" "ncols X = ncols (heap s a)"
      "\<forall>r c. ent X r c = (if m \<le> r \<and> r < m + n \<and> c < m then x (r - m) c
                            else ent (heap s a) r c)"
      unfolding I_def by blast
    have A': "A_ref s' = Some a" and h: "heap s' a = X"
      using X(1) A by simp_all
    have "\<exists>Y. for_loop (cell5_body linv ftest fsrc covs eps m n) [0..<m] s'
                = (s'\<lparr>heap := (heap s')(a := Y)\<rparr>, None)
            \<and> nrows Y = nrows (heap s' a) \<and> ncols Y = ncols (heap s' a)
            \<and> (\<forall>r c. ent Y r c = (if r = n + m \<and> c < m then x n c else ent (heap s' a) r c))"
      using shape that(1) k X(2,3) h
      by (intro cell5_inner_success [OF A']) simp_all
    then obtain Y where Y: "for_loop (cell5_body linv ftest fsrc covs eps m n) [0..<m] s'
                = (s'\<lparr>heap := (heap s')(a := Y)\<rparr>, None)"
      "nrows Y = nrows X" "ncols Y = ncols X"
      "\<forall>r c. ent Y r c = (if r = n + m \<and> c < m then x n c else ent X r c)"
      unfolding h by blast
    have "s'\<lparr>heap := (heap s')(a := Y)\<rparr> = s\<lparr>heap := (heap s)(a := Y)\<rparr>"
      using X(1) by simp
    moreover have "I (Suc n) (s\<lparr>heap := (heap s)(a := Y)\<rparr>)"
      unfolding I_def using X(2-4) Y(2-4)
      by (intro exI [of _ Y]) (auto simp: less_Suc_eq)
    ultimately show ?thesis
      using Y(1) by simp
  qed
  from for_range_success [where I = I and s = s and n = M
      and body = "\<lambda>i. for_loop (cell5_body linv ftest fsrc covs eps m i) [0..<m]", OF init step]
  obtain s' where s': "cell5 linv ftest fsrc covs eps m M s = (s', None)" "I M s'"
    unfolding cell5_def by blast
  from s'(2) obtain X where "s' = s\<lparr>heap := (heap s)(a := X)\<rparr>"
      "nrows X = nrows (heap s a)" "ncols X = ncols (heap s a)"
      "\<forall>r c. ent X r c = (if m \<le> r \<and> r < m + M \<and> c < m then x (r - m) c
                            else ent (heap s a) r c)"
    unfolding I_def by blast
  with s'(1) show ?thesis
    by (intro exI [of _ X]) simp
qed

lemma cell5_body_frame:
  assumes "A_ref s = Some a"
  shows "fst (cell5_body linv ftest fsrc covs eps m i j s) = s
         \<or> (\<exists>x. fst (cell5_body linv ftest fsrc covs eps m i j s)
                = s\<lparr>heap := (heap s)(a := (heap s a)\<lparr>ent := (ent (heap s a))
                       (i + m := (ent (heap s a) (i + m))(j := x))\<rparr>)\<rparr>)"
  using assms by (auto simp add: cell5_body_def setitem_A_def split: sum.splits)

lemma cell5_frame:
  assumes A: "A_ref s = Some a"
  shows "\<exists>X. fst (cell5 linv ftest fsrc covs eps m M s) = s\<lparr>heap := (heap s)(a := X)\<rparr>
            \<and> nrows X = nrows (heap s a) \<and> ncols X = ncols (heap s a)
            \<and> (\<forall>r c. r < m \<or> m + M \<le> r \<longrightarrow> ent X r c = ent (heap s a) r c)"
proof -
  define P where "P s' \<longleftrightarrow> (\<exists>X. s' = s\<lparr>heap := (heap s)(a := X)\<rparr>
      \<and> nrows X = nrows (heap s a) \<and> ncols X = ncols (heap s a)
      \<and> (\<forall>r c. r < m \<or> m + M \<le> r \<longrightarrow> ent X r c = ent (heap s a) r c))" for s'
  have body: "P (fst (cell5_body linv ftest fsrc covs eps m i j s'))" if "i < M" "P s'" for i j s'
  proof -
    from that(2) obtain X where X: "s' = s\<lparr>heap := (heap s)(a := X)\<rparr>"
      "nrows X = nrows (heap s a)" "ncols X = ncols (heap s a)"
      "\<forall>r c. r < m \<or> m + M \<le> r \<longrightarrow> ent X r c = ent (heap s a) r c"
      unfolding P_def by blast
    have A': "A_ref s' = Some a" and h: "heap s' a = X"
      using X(1) A by simp_all
    from cell5_body_frame [OF A', of linv ftest fsrc covs eps m i j]
    show ?thesis
    proof
      assume "fst (cell5_body linv ftest fsrc covs eps m i j s') = s'"
      with that(2) show ?thesis by simp
    next
      assume "\<exists>x. fst (cell5_body linv ftest fsrc covs eps m i j s')
                = s'\<lparr>heap := (heap s')(a := (heap s' a)\<lparr>ent := (ent (heap s' a))
                       (i + m := (ent (heap s' a) (i + m))(j := x))\<rparr>)\<rparr>"
      then obtain x where "fst (cell5_body linv ftest fsrc covs eps m i j s')
          = s\<lparr>heap := (heap s)(a := X\<lparr>ent := (ent X)(i + m := (ent X (i + m))(j := x))\<rparr>)\<rparr>"
        unfolding h using X(1) by auto
      moreover have "P (s\<lparr>heap := (heap s)(a := X\<lparr>ent := (ent X)(i + m := (ent X (i + m))(j := x))\<rparr>)\<rparr>)"
        unfolding P_def using X(2-4) that(1)
        by (intro exI [of _ "X\<lparr>ent := (ent X)(i + m := (ent X (i + m))(j := x))\<rparr>"]) auto
      ultimately show ?thesis by simp
    qed
  qed
  have inner: "P (fst (for_loop (cell5_body linv ftest fsrc covs eps m i) [0..<m] s'))"
    if "i < M" "P s'" for i s'
  proof (rule for_loop_frame [where P = P])
    show "P s'" by (rule that(2))
  next
    fix j s''
    assume "P s''"
    with that(1) show "P (fst (cell5_body linv ftest fsrc covs eps m i j s''))"
      by (rule body)
  qed
  have Ps: "P s"
    unfolding P_def by (rule exI [of _ "heap s a"]) simp
  have "P (fst (cell5 linv ftest fsrc covs eps m M s))"
    unfolding cell5_def
  proof (rule for_loop_frame [where P = P])
    show "P s" by (rule Ps)
  next
    fix i s'
    assume "i \<in> set [0..<M]" "P s'"
    then show "P (fst (for_loop (cell5_body linv ftest fsrc covs eps m i) [0..<m] s'))"
      by (simp add: inner)
  qed
  then show ?thesis
    unfolding P_def by blast
qed


lemma build_A_success:
  assumes W: "nrows (heap s (W_ref s)) = m" "ncols (heap s (W_ref s)) = m"
    and k: "\<forall>i<M. \<forall>j<m. kernel_entry linv ftest fsrc covs eps i j = Inr (x i j)"
  shows "\<exists>s' a. build_A linv ftest fsrc covs eps m M s = (s', None) \<and> A_ref s' = Some a
           \<and> nrows (heap s' a) = m + M \<and> ncols (heap s' a) = m
           \<and> (\<forall>i<m. \<forall>j<m. ent (heap s' a) i j = ent (heap s (W_ref s)) i j)
           \<and> (\<forall>i<M. \<forall>j<m. ent (heap s' a) (m + i) j = x i j)"
proof -
  let ?a = "Suc (nxt s)"
  let ?A0 = "\<lparr>nrows = nrows (heap s (W_ref s)) + M, ncols = m,
               ent = (\<lambda>i j. if i < nrows (heap s (W_ref s)) then ent (heap s (W_ref s)) i j else 0)\<rparr>"
  let ?s1 = "s\<lparr>heap := (heap s)(nxt s := heap s (W_ref s), ?a := ?A0),
               nxt := Suc (Suc (nxt s)), A_ref := Some ?a\<rparr>"
  have c4: "cell4 m M s = (?s1, None)"
    by (rule cell4_success [OF W(2)])
  have A1: "A_ref ?s1 = Some ?a" and h1: "heap ?s1 ?a = ?A0"
    by simp_all
  from cell5_success [of ?s1 ?a m M linv ftest fsrc covs eps x, OF A1] W(1) k
  obtain X where X: "cell5 linv ftest fsrc covs eps m M ?s1 = (?s1\<lparr>heap := (heap ?s1)(?a := X)\<rparr>, None)"
    "nrows X = nrows ?A0" "ncols X = ncols ?A0"
    "\<forall>r c. ent X r c = (if m \<le> r \<and> r < m + M \<and> c < m then x (r - m) c else ent ?A0 r c)"
    unfolding h1 by auto
  have "build_A linv ftest fsrc covs eps m M s = (?s1\<lparr>heap := (heap ?s1)(?a := X)\<rparr>, None)"
    by (simp only: build_A_def c4 X(1) prod.case option.case)
  moreover have "A_ref (?s1\<lparr>heap := (heap ?s1)(?a := X)\<rparr>) = Some ?a"
    and "heap (?s1\<lparr>heap := (heap ?s1)(?a := X)\<rparr>) ?a = X"
    by simp_all
  moreover have "nrows X = m + M" "ncols X = m"
    using X(2,3) W(1) by simp_all
  moreover have "\<forall>i<m. \<forall>j<m. ent X i j = ent (heap s (W_ref s)) i j"
    using X(4) W(1) by simp
  moreover have "\<forall>i<M. \<forall>j<m. ent X (m + i) j = x i j"
    using X(4) by simp
  ultimately show ?thesis
    by (intro exI [of _ "?s1\<lparr>heap := (heap ?s1)(?a := X)\<rparr>"] exI [of _ ?a]) (simp only: simp_thms)
qed

section \<open>The affinity matrix of the test stage\<close>

lemma sum_lessThan_2: "(\<Sum>k<2. f k) = f 0 + f (Suc 0)"
  by (simp add: numeral_2_eq_2)

lemma all_less_2: "(\<forall>i<2. P i) \<longleftrightarrow> P 0 \<and> P (Suc 0)"
  by (auto simp add: less_2_cases_iff)

lemma float_max_ge: "32 \<le> float_max"
proof -
  have "(32::real) = 1 * 2 ^ 5"
    by simp
  also have "\<dots> \<le> (2 - 1 / 2 ^ 52) * 2 ^ 1023"
    by (intro mult_mono power_increasing) simp_all
  finally show ?thesis
    by (simp only: float_max_def)
qed

lemma is_inverse_cov_2: "is_inverse 2 cov_2 inv_cov_2"
  by (simp add: is_inverse_def cov_2_def inv_cov_2_def matrix_of_rows_def sum_lessThan_2
      all_less_2)

lemma mahalanobis_sq_2:
  "mahalanobis_sq 2 t s X
     = ((t ! 0 - s ! 0) * ent X 0 0 + (t ! Suc 0 - s ! Suc 0) * ent X (Suc 0) 0) * (t ! 0 - s ! 0)
       + ((t ! 0 - s ! 0) * ent X 0 (Suc 0) + (t ! Suc 0 - s ! Suc 0) * ent X (Suc 0) (Suc 0))
         * (t ! Suc 0 - s ! Suc 0)"
  by (simp add: mahalanobis_sq_def sum_lessThan_2)

lemma plane_distances:
  "mahalanobis_sq 2 (unit_feature 0) (corner_feature 0) inv_cov_2 = 1"
  "mahalanobis_sq 2 (unit_feature 0) (corner_feature (Suc 0)) inv_cov_2 = 2"
  "mahalanobis_sq 2 (unit_feature (Suc 0)) (corner_feature 0) inv_cov_2 = 2"
  "mahalanobis_sq 2 (unit_feature (Suc 0)) (corner_feature (Suc 0)) inv_cov_2 = 1"
  "mahalanobis_sq 2 (corner_feature 0) (corner_feature (Suc 0)) inv_cov_2 = 1"
  "mahalanobis_sq 2 (corner_feature (Suc 0)) (corner_feature 0) inv_cov_2 = 1"
  by (simp_all add: mahalanobis_sq_2 unit_feature_def corner_feature_def inv_cov_2_def
      matrix_of_rows_def)

lemma plane_in_range:
  "kernel_in_range 2 2 (unit_feature i) (corner_feature j) inv_cov_2 1"
proof -
  have "(4::real) * 2 ^ 3 \<le> float_max"
    using float_max_ge by simp
  then show ?thesis
    by (simp add: kernel_in_range_def all_less_2 mahalanobis_sq_2 unit_feature_def
        corner_feature_def inv_cov_2_def matrix_of_rows_def)
qed

lemma plane_training_affinity:
  "training_affinity linalg_inv_cov_2 1 corner_feature (\<lambda>i j. cov_2) 2 plane_W"
proof -
  have sh: "nrows inv_cov_2 = 2" "ncols inv_cov_2 = 2"
    by (simp_all add: inv_cov_2_def matrix_of_rows_def)
  have len: "length (corner_feature i) = 2" for i
    by (simp add: corner_feature_def)
  have g: "gauss_kernel linalg_inv_cov_2 1 (corner_feature i) (corner_feature j) cov_2
      = Inr (exp (- mahalanobis_sq 2 (corner_feature i) (corner_feature j) inv_cov_2 / 1))"
    for i j
    using sh len
    by (simp add: gauss_kernel_value [where linv = linalg_inv_cov_2 and X = inv_cov_2
          and D = 2] linalg_inv_cov_2_def)
  show ?thesis
    by (simp add: training_affinity_def all_less_2 g plane_distances mahalanobis_sq_same)
      (simp add: plane_W_def matrix_of_rows_def)
qed

text \<open>
  C1. When \<^verbatim>\<open>W\<close> is \<open>m \<times> m\<close>, \<^verbatim>\<open>np.linalg.inv\<close> returns the inverse of the covariance
  of each of the \<open>m\<close> training sources, the feature vectors have length \<open>D\<close> and the
  evaluation of the kernel stays within the range of a float, cells 4 and 5 end without
  an exception with \<^verbatim>\<open>A\<close> of shape \<open>(m + M) \<times> m\<close>. Its entry \<open>(i, j)\<close> is that of \<^verbatim>\<open>W\<close>
  for \<open>i, j < m\<close>. Its entry \<open>(m + i, j)\<close>, for a test index \<open>i < M\<close> and a training index
  \<open>j < m\<close>, is the value of the Gaussian kernel for test feature vector \<open>i\<close>, training
  feature vector \<open>j\<close> and the covariance of training source \<open>j\<close>:
  \<open>exp (- d\<^sup>2 / epsilon)\<close> with \<open>d\<^sup>2\<close> the squared Mahalanobis distance under the inverse of
  that covariance. It is the same kernel as that of the top block: when \<^verbatim>\<open>W\<close> holds the
  values of the kernel for the pairs of training feature vectors, so does the top block
  of \<^verbatim>\<open>A\<close>.
\<close>

theorem test_stage_affinity_matrix:
  assumes W: "nrows (heap s (W_ref s)) = m" "ncols (heap s (W_ref s)) = m"
    and eps: "eps \<noteq> 0"
    and covs: "m \<le> length covs"
    and calls: "\<forall>j<m. \<exists>X. linv (covs ! j) = Inr X \<and> is_inverse D (covs ! j) X"
    and feats: "\<forall>i<M. length (ftest i) = D" "\<forall>j<m. length (fsrc j) = D"
    and range: "\<forall>i<M. \<forall>j<m. \<forall>X. linv (covs ! j) = Inr X
                  \<longrightarrow> kernel_in_range B D (ftest i) (fsrc j) X eps"
  shows "\<exists>s' a. build_A linv ftest fsrc covs eps m M s = (s', None) \<and> A_ref s' = Some a
           \<and> nrows (heap s' a) = m + M \<and> ncols (heap s' a) = m
           \<and> (\<forall>i<m. \<forall>j<m. ent (heap s' a) i j = ent (heap s (W_ref s)) i j)
           \<and> (\<forall>i<M. \<forall>j<m.
                 gauss_kernel linv eps (ftest i) (fsrc j) (covs ! j)
                   = Inr (ent (heap s' a) (m + i) j)
                 \<and> (\<forall>Y. is_inverse D (covs ! j) Y
                       \<longrightarrow> ent (heap s' a) (m + i) j
                             = exp (- mahalanobis_sq D (ftest i) (fsrc j) Y / eps)))
           \<and> (training_affinity linv eps fsrc wcov m (heap s (W_ref s))
                \<longrightarrow> (\<forall>i<m. \<forall>j<m. gauss_kernel linv eps (fsrc i) (fsrc j) (wcov i j)
                                     = Inr (ent (heap s' a) i j)))"
proof -
  define x where "x i j = projr (kernel_entry linv ftest fsrc covs eps i j)" for i j
  have val: "\<exists>X. is_inverse D (covs ! j) X
      \<and> kernel_entry linv ftest fsrc covs eps i j
          = Inr (exp (- mahalanobis_sq D (ftest i) (fsrc j) X / eps))"
    if "i < M" "j < m" for i j
  proof -
    from that covs have c: "j < length covs"
      by simp
    from calls that(2) obtain X where X: "linv (covs ! j) = Inr X" "is_inverse D (covs ! j) X"
      by blast
    from kernel_entry_value [where linv = linv and covs = covs and j = j and X = X and D = D
        and ftest = ftest and i = i and fsrc = fsrc and eps = eps,
        OF c X(1) is_inverse_shape [OF X(2)]] feats that
    have "kernel_entry linv ftest fsrc covs eps i j
        = Inr (exp (- mahalanobis_sq D (ftest i) (fsrc j) X / eps))"
      by simp
    with X(2) show ?thesis
      by blast
  qed
  then have k: "\<forall>i<M. \<forall>j<m. kernel_entry linv ftest fsrc covs eps i j = Inr (x i j)"
    unfolding x_def by fastforce
  from build_A_success [OF W k] obtain s' a where
    r: "build_A linv ftest fsrc covs eps m M s = (s', None)" "A_ref s' = Some a"
      "nrows (heap s' a) = m + M" "ncols (heap s' a) = m"
      "\<forall>i<m. \<forall>j<m. ent (heap s' a) i j = ent (heap s (W_ref s)) i j"
      "\<forall>i<M. \<forall>j<m. ent (heap s' a) (m + i) j = x i j"
    by blast
  have bottom: "gauss_kernel linv eps (ftest i) (fsrc j) (covs ! j)
          = Inr (ent (heap s' a) (m + i) j)
      \<and> (\<forall>Y. is_inverse D (covs ! j) Y
            \<longrightarrow> ent (heap s' a) (m + i) j
                  = exp (- mahalanobis_sq D (ftest i) (fsrc j) Y / eps))"
    if "i < M" "j < m" for i j
  proof -
    from that covs have c: "j < length covs"
      by simp
    from k r(6) that have e: "kernel_entry linv ftest fsrc covs eps i j
        = Inr (ent (heap s' a) (m + i) j)"
      by simp
    then have g: "gauss_kernel linv eps (ftest i) (fsrc j) (covs ! j)
        = Inr (ent (heap s' a) (m + i) j)"
      by (simp add: kernel_entry_gauss [OF c])
    from val [OF that] obtain X where X: "is_inverse D (covs ! j) X"
      "kernel_entry linv ftest fsrc covs eps i j
          = Inr (exp (- mahalanobis_sq D (ftest i) (fsrc j) X / eps))"
      by blast
    from X(2) e have v: "ent (heap s' a) (m + i) j
        = exp (- mahalanobis_sq D (ftest i) (fsrc j) X / eps)"
      by simp
    have "ent (heap s' a) (m + i) j = exp (- mahalanobis_sq D (ftest i) (fsrc j) Y / eps)"
      if "is_inverse D (covs ! j) Y" for Y
      using v mahalanobis_sq_inverse_unique [OF X(1) that] by simp
    with g show ?thesis
      by blast
  qed
  have top: "\<forall>i<m. \<forall>j<m. gauss_kernel linv eps (fsrc i) (fsrc j) (wcov i j)
                                     = Inr (ent (heap s' a) i j)"
    if "training_affinity linv eps fsrc wcov m (heap s (W_ref s))"
    using that r(5) by (simp add: training_affinity_def)
  from r(1-5) bottom top show ?thesis
    by blast
qed

theorem test_stage_affinity_matrix_witness:
  "is_inverse 2 cov_2 inv_cov_2
   \<and> kernel_in_range 2 2 (unit_feature 1) (corner_feature 0) inv_cov_2 1
   \<and> training_affinity linalg_inv_cov_2 1 corner_feature (\<lambda>i j. cov_2) 2 plane_W
   \<and> (\<exists>s' a. build_A linalg_inv_cov_2 unit_feature corner_feature [cov_2, cov_2] 1 2 2
                  (start_state plane_W [1 + exp (- 1), 1 - exp (- 1)]) = (s', None)
          \<and> A_ref s' = Some a \<and> nrows (heap s' a) = 4 \<and> ncols (heap s' a) = 2
          \<and> ent (heap s' a) 0 1 = exp (- 1)
          \<and> ent (heap s' a) 2 0 = exp (- 1) \<and> ent (heap s' a) 2 1 = exp (- 2)
          \<and> ent (heap s' a) 3 0 = exp (- 2) \<and> ent (heap s' a) 3 1 = exp (- 1)
          \<and> gauss_kernel linalg_inv_cov_2 1 (corner_feature 0) (corner_feature 1) cov_2
              = Inr (ent (heap s' a) 0 1))"
proof -
  let ?s = "start_state plane_W [1 + exp (- 1), 1 - exp (- 1)]"
  let ?covs = "[cov_2, cov_2]"
  have W: "nrows (heap ?s (W_ref ?s)) = 2" "ncols (heap ?s (W_ref ?s)) = 2"
    and hW: "heap ?s (W_ref ?s) = plane_W"
    by (simp_all add: start_state_def plane_W_def matrix_of_rows_def)
  have eps: "(1::real) \<noteq> 0"
    by simp
  have covs: "2 \<le> length ?covs"
    by simp
  have nth: "?covs ! j = cov_2" if "j < 2" for j
    using that by (auto simp add: less_2_cases_iff)
  have calls: "\<forall>j<2. \<exists>X. linalg_inv_cov_2 (?covs ! j) = Inr X \<and> is_inverse 2 (?covs ! j) X"
    using is_inverse_cov_2 by (simp add: nth linalg_inv_cov_2_def)
  have feats: "\<forall>i<2. length (unit_feature i) = 2" "\<forall>j<2. length (corner_feature j) = 2"
    by (simp_all add: unit_feature_def corner_feature_def)
  have range: "\<forall>i<2. \<forall>j<2. \<forall>X. linalg_inv_cov_2 (?covs ! j) = Inr X
      \<longrightarrow> kernel_in_range 2 2 (unit_feature i) (corner_feature j) X 1"
    by (auto simp add: linalg_inv_cov_2_def plane_in_range)
  have aff: "training_affinity linalg_inv_cov_2 1 corner_feature (\<lambda>i j. cov_2) 2 plane_W"
    by (rule plane_training_affinity)
  from test_stage_affinity_matrix [where s = ?s and m = 2 and M = 2 and D = 2 and B = 2
      and eps = 1 and covs = ?covs and linv = linalg_inv_cov_2 and ftest = unit_feature
      and fsrc = corner_feature and wcov = "\<lambda>i j. cov_2",
      OF W eps covs calls feats range]
  obtain s' a where
    r: "build_A linalg_inv_cov_2 unit_feature corner_feature ?covs 1 2 2 ?s = (s', None)"
      "A_ref s' = Some a" "nrows (heap s' a) = 2 + 2" "ncols (heap s' a) = 2"
      "\<forall>i<2. \<forall>j<2. ent (heap s' a) i j = ent (heap ?s (W_ref ?s)) i j"
      "\<forall>i<2. \<forall>j<2.
          gauss_kernel linalg_inv_cov_2 1 (unit_feature i) (corner_feature j) (?covs ! j)
            = Inr (ent (heap s' a) (2 + i) j)
          \<and> (\<forall>Y. is_inverse 2 (?covs ! j) Y
                \<longrightarrow> ent (heap s' a) (2 + i) j
                      = exp (- mahalanobis_sq 2 (unit_feature i) (corner_feature j) Y / 1))"
      "training_affinity linalg_inv_cov_2 1 corner_feature (\<lambda>i j. cov_2) 2 (heap ?s (W_ref ?s))
         \<longrightarrow> (\<forall>i<2. \<forall>j<2. gauss_kernel linalg_inv_cov_2 1 (corner_feature i) (corner_feature j) cov_2
                              = Inr (ent (heap s' a) i j))"
    by (elim exE conjE)
  have b: "ent (heap s' a) (2 + i) j
      = exp (- mahalanobis_sq 2 (unit_feature i) (corner_feature j) inv_cov_2)"
    if "i < 2" "j < 2" for i j
  proof -
    from r(6) that have "\<forall>Y. is_inverse 2 (?covs ! j) Y
        \<longrightarrow> ent (heap s' a) (2 + i) j
              = exp (- mahalanobis_sq 2 (unit_feature i) (corner_feature j) Y / 1)"
      by blast
    with is_inverse_cov_2 nth [OF that(2)] show ?thesis
      by simp
  qed
  have e20: "ent (heap s' a) 2 0 = exp (- 1)" and e21: "ent (heap s' a) 2 1 = exp (- 2)"
    using b [of 0 0] b [of 0 1] by (simp_all add: plane_distances)
  have e30: "ent (heap s' a) 3 0 = exp (- 2)" and e31: "ent (heap s' a) 3 1 = exp (- 1)"
    using b [of 1 0] b [of 1 1] by (simp_all add: plane_distances)
  have e01: "ent (heap s' a) 0 1 = exp (- 1)"
    using r(5) by (simp add: hW) (simp add: plane_W_def matrix_of_rows_def)
  from r(7) aff have "gauss_kernel linalg_inv_cov_2 1 (corner_feature 0) (corner_feature 1) cov_2
      = Inr (ent (heap s' a) 0 1)"
    by (simp add: hW)
  note g = this
  from r(3) have n: "nrows (heap s' a) = 4"
    by simp
  have "\<exists>s' a. build_A linalg_inv_cov_2 unit_feature corner_feature ?covs 1 2 2 ?s = (s', None)
          \<and> A_ref s' = Some a \<and> nrows (heap s' a) = 4 \<and> ncols (heap s' a) = 2
          \<and> ent (heap s' a) 0 1 = exp (- 1)
          \<and> ent (heap s' a) 2 0 = exp (- 1) \<and> ent (heap s' a) 2 1 = exp (- 2)
          \<and> ent (heap s' a) 3 0 = exp (- 2) \<and> ent (heap s' a) 3 1 = exp (- 1)
          \<and> gauss_kernel linalg_inv_cov_2 1 (corner_feature 0) (corner_feature 1) cov_2
              = Inr (ent (heap s' a) 0 1)"
    by (intro exI [of _ s'] exI [of _ a] conjI) (rule r(1) r(2) n r(4) e01 e20 e21 e30 e31 g)+
  with is_inverse_cov_2 plane_in_range [of 1 0] aff show ?thesis
    by (intro conjI)
qed

section \<open>The Gaussian kernel of the loop body\<close>

lemma corner_in_range:
  "kernel_in_range 2 2 (corner_feature j) (corner_feature j) inv_cov_2 1"
proof -
  have "(4::real) * 2 ^ 3 \<le> float_max"
    using float_max_ge by simp
  then show ?thesis
    by (simp add: kernel_in_range_def all_less_2 mahalanobis_sq_same inv_cov_2_def
        matrix_of_rows_def)
qed

text \<open>
  C2. For a test sample \<open>i\<close> and a training sample \<open>j\<close> for whose covariance
  \<^verbatim>\<open>np.linalg.inv\<close> returns the inverse \<open>X\<close>, with feature vectors of length \<open>D\<close>, a
  non-zero \<open>epsilon\<close> and an evaluation that stays within the range of a float, the value
  the loop body computes is \<open>exp (- d\<^sup>2 / epsilon)\<close>, where \<open>d\<^sup>2\<close> is the difference of the
  feature vectors times the inverse of the covariance of source \<open>j\<close> times the difference
  transposed, whichever way the inverse is written; for identical feature vectors it is
  exactly 1.
\<close>

theorem kernel_entry_mahalanobis:
  assumes "j < length covs"
    and "linv (covs ! j) = Inr X" and "is_inverse D (covs ! j) X"
    and "length (ftest i) = D" "length (fsrc j) = D"
    and "eps \<noteq> 0"
    and "kernel_in_range B D (ftest i) (fsrc j) X eps"
  shows "kernel_entry linv ftest fsrc covs eps i j
           = Inr (exp (- mahalanobis_sq D (ftest i) (fsrc j) X / eps))
         \<and> (\<forall>Y. is_inverse D (covs ! j) Y
               \<longrightarrow> kernel_entry linv ftest fsrc covs eps i j
                     = Inr (exp (- mahalanobis_sq D (ftest i) (fsrc j) Y / eps)))
         \<and> (ftest i = fsrc j \<longrightarrow> kernel_entry linv ftest fsrc covs eps i j = Inr 1)"
proof -
  from kernel_entry_value [where linv = linv and covs = covs and j = j and X = X and D = D
      and ftest = ftest and i = i and fsrc = fsrc and eps = eps,
      OF assms(1,2) is_inverse_shape [OF assms(3)] assms(4,5)]
  have k: "kernel_entry linv ftest fsrc covs eps i j
      = Inr (exp (- mahalanobis_sq D (ftest i) (fsrc j) X / eps))" .
  have "kernel_entry linv ftest fsrc covs eps i j
      = Inr (exp (- mahalanobis_sq D (ftest i) (fsrc j) Y / eps))"
    if "is_inverse D (covs ! j) Y" for Y
    using k mahalanobis_sq_inverse_unique [OF assms(3) that] by simp
  moreover have "kernel_entry linv ftest fsrc covs eps i j = Inr 1" if "ftest i = fsrc j"
    using k that by (simp add: mahalanobis_sq_same)
  ultimately show ?thesis
    using k by blast
qed

theorem kernel_entry_mahalanobis_witness:
  "is_inverse 2 cov_2 inv_cov_2
   \<and> kernel_in_range 2 2 (unit_feature 0) (corner_feature 1) inv_cov_2 1
   \<and> mahalanobis_sq 2 (unit_feature 0) (corner_feature 1) inv_cov_2 = 2
   \<and> kernel_entry linalg_inv_cov_2 unit_feature corner_feature [cov_2, cov_2] 1 0 1
       = Inr (exp (- 2))
   \<and> kernel_in_range 2 2 (corner_feature 1) (corner_feature 1) inv_cov_2 1
   \<and> kernel_entry linalg_inv_cov_2 corner_feature corner_feature [cov_2, cov_2] 1 1 1 = Inr 1"
proof -
  let ?covs = "[cov_2, cov_2]"
  have j: "1 < length ?covs"
    by simp
  have c: "linalg_inv_cov_2 (?covs ! 1) = Inr inv_cov_2"
    by (simp add: linalg_inv_cov_2_def)
  have i: "is_inverse 2 (?covs ! 1) inv_cov_2"
    using is_inverse_cov_2 by simp
  have len: "length (unit_feature 0) = 2" "length (corner_feature 1) = 2"
    by (simp_all add: unit_feature_def corner_feature_def)
  have eps: "(1::real) \<noteq> 0"
    by simp
  have d: "mahalanobis_sq 2 (unit_feature 0) (corner_feature 1) inv_cov_2 = 2"
    by (simp add: plane_distances)
  from kernel_entry_mahalanobis [where linv = linalg_inv_cov_2 and covs = ?covs and j = 1
      and X = inv_cov_2 and D = 2 and B = 2 and ftest = unit_feature and i = 0
      and fsrc = corner_feature and eps = 1, OF j c i len eps plane_in_range]
  have a: "kernel_entry linalg_inv_cov_2 unit_feature corner_feature ?covs 1 0 1
      = Inr (exp (- 2))"
    using d by simp
  from kernel_entry_mahalanobis [where linv = linalg_inv_cov_2 and covs = ?covs and j = 1
      and X = inv_cov_2 and D = 2 and B = 2 and ftest = corner_feature and i = 1
      and fsrc = corner_feature and eps = 1, OF j c i len(2) len(2) eps corner_in_range]
  have b: "kernel_entry linalg_inv_cov_2 corner_feature corner_feature ?covs 1 1 1 = Inr 1"
    by blast
  from is_inverse_cov_2 plane_in_range [of 0 1] d a corner_in_range [of 1] b show ?thesis
    by (intro conjI)
qed

section \<open>The frame of the test stage\<close>

text \<open>
  C10. From a well-formed state in which \<^verbatim>\<open>W\<close> is \<open>m \<times> m\<close>, cell 4 binds \<^verbatim>\<open>A\<close> to a new
  array, distinct from those of \<^verbatim>\<open>W\<close> and \<^verbatim>\<open>eig_vects\<close>, that holds \<^verbatim>\<open>W\<close> followed by
  \<open>M\<close> rows of zeros. Whatever the outcome of the fill loop, it leaves \<^verbatim>\<open>A\<close> bound to that
  array and changes no entry outside the rows \<open>m, \<dots>, m + M - 1\<close>, so the first \<open>m\<close> rows of
  \<^verbatim>\<open>A\<close> still equal \<^verbatim>\<open>W\<close>; the arrays of \<^verbatim>\<open>W\<close> and \<^verbatim>\<open>eig_vects\<close> and the value of
  \<^verbatim>\<open>eig_vals\<close> are unchanged, and the Nystrom step of cell 8 gets the same eigenpairs as
  it would have before the test stage.
\<close>

theorem build_A_frame:
  assumes wf: "wf_state s"
    and W: "nrows (heap s (W_ref s)) = m" "ncols (heap s (W_ref s)) = m"
  shows "\<exists>s1 a s'. cell4 m M s = (s1, None) \<and> A_ref s1 = Some a
           \<and> a \<noteq> W_ref s \<and> a \<noteq> eig_vects_ref s
           \<and> nrows (heap s1 a) = m + M \<and> ncols (heap s1 a) = m
           \<and> (\<forall>i j. ent (heap s1 a) i j = (if i < m then ent (heap s (W_ref s)) i j else 0))
           \<and> fst (build_A linv ftest fsrc covs eps m M s) = s'
           \<and> A_ref s' = Some a
           \<and> (\<forall>r c. r < m \<or> m + M \<le> r \<longrightarrow> ent (heap s' a) r c = ent (heap s1 a) r c)
           \<and> (\<forall>i<m. \<forall>j<m. ent (heap s' a) i j = ent (heap s (W_ref s)) i j)
           \<and> W_ref s' = W_ref s \<and> heap s' (W_ref s) = heap s (W_ref s)
           \<and> eig_vals_var s' = eig_vals_var s \<and> eig_vects_ref s' = eig_vects_ref s
           \<and> heap s' (eig_vects_ref s) = heap s (eig_vects_ref s)
           \<and> (\<forall>f d At. cell8 f m M d s' At = cell8 f m M d s At)"
proof -
  define a where "a = Suc (nxt s)"
  define A0 where "A0 = \<lparr>nrows = nrows (heap s (W_ref s)) + M, ncols = m,
      ent = (\<lambda>i j. if i < nrows (heap s (W_ref s)) then ent (heap s (W_ref s)) i j else 0)\<rparr>"
  define s1 where "s1 = s\<lparr>heap := (heap s)(nxt s := heap s (W_ref s), a := A0),
      nxt := Suc (Suc (nxt s)), A_ref := Some a\<rparr>"
  have c4: "cell4 m M s = (s1, None)"
    unfolding s1_def A0_def a_def by (rule cell4_success [OF W(2)])
  have A1: "A_ref s1 = Some a" and h1: "heap s1 a = A0"
    by (simp_all add: s1_def)
  from wf have fresh: "a \<noteq> W_ref s" "a \<noteq> eig_vects_ref s" "nxt s \<noteq> W_ref s"
    "nxt s \<noteq> eig_vects_ref s"
    by (simp_all add: wf_state_def a_def)
  from cell5_frame [OF A1, of linv ftest fsrc covs eps m M]
  obtain X where X: "fst (cell5 linv ftest fsrc covs eps m M s1) = s1\<lparr>heap := (heap s1)(a := X)\<rparr>"
    "nrows X = nrows A0" "ncols X = ncols A0"
    "\<forall>r c. r < m \<or> m + M \<le> r \<longrightarrow> ent X r c = ent A0 r c"
    unfolding h1 by blast
  define s' where "s' = s1\<lparr>heap := (heap s1)(a := X)\<rparr>"
  have b: "fst (build_A linv ftest fsrc covs eps m M s) = s'"
    by (simp only: build_A_def c4 prod.case option.case X(1) s'_def)
  have hs': "heap s' a = X"
    by (simp add: s'_def)
  have f1: "A_ref s' = Some a"
    and f2: "W_ref s' = W_ref s" and f3: "heap s' (W_ref s) = heap s (W_ref s)"
    and f4: "eig_vals_var s' = eig_vals_var s" and f5: "eig_vects_ref s' = eig_vects_ref s"
    and f6: "heap s' (eig_vects_ref s) = heap s (eig_vects_ref s)"
    using fresh by (simp_all add: s'_def s1_def)
  have f7: "\<forall>f d At. cell8 f m M d s' At = cell8 f m M d s At"
    by (simp add: cell8_def f4 f5 f6)
  have f8: "nrows (heap s1 a) = m + M" and f9: "ncols (heap s1 a) = m"
    and f10: "\<forall>i j. ent (heap s1 a) i j = (if i < m then ent (heap s (W_ref s)) i j else 0)"
    using W(1) by (simp_all add: h1 A0_def)
  have f11: "\<forall>r c. r < m \<or> m + M \<le> r \<longrightarrow> ent (heap s' a) r c = ent (heap s1 a) r c"
    using X(4) by (simp only: h1 hs')
  have f12: "\<forall>i<m. \<forall>j<m. ent (heap s' a) i j = ent (heap s (W_ref s)) i j"
    using f11 f10 by simp
  show ?thesis
    by (intro exI [of _ s1] exI [of _ a] exI [of _ s'] conjI)
      (rule c4 A1 fresh b f1 f2 f3 f4 f5 f6 f7 f8 f9 f10 f11 f12)+
qed

theorem build_A_frame_witness:
  "wf_state (start_state (const_matrix 1 1) [1])
   \<and> (\<exists>s1 a s'. cell4 1 1 (start_state (const_matrix 1 1) [1]) = (s1, None)
          \<and> A_ref s1 = Some a \<and> a \<noteq> 0 \<and> a \<noteq> 1
          \<and> fst (build_A diag_inv (\<lambda>i. [1]) (\<lambda>j. [0]) [const_matrix 1 2] 1 1 1
                 (start_state (const_matrix 1 1) [1])) = s'
          \<and> A_ref s' = Some a \<and> ent (heap s' a) 0 0 = 1
          \<and> heap s' 0 = const_matrix 1 1 \<and> heap s' 1 = const_matrix 1 1
          \<and> eig_vals_var s' = [1])"
proof -
  let ?s = "start_state (const_matrix 1 1) [1]"
  have wf: "wf_state ?s"
    by (simp add: wf_state_def start_state_def)
  have W: "nrows (heap ?s (W_ref ?s)) = 1" "ncols (heap ?s (W_ref ?s)) = 1"
    by (simp_all add: start_state_def const_matrix_def)
  have v: "W_ref ?s = 0" "eig_vects_ref ?s = 1" "eig_vals_var ?s = [1]"
    "heap ?s 0 = const_matrix 1 1" "heap ?s 1 = const_matrix 1 1"
    "ent (const_matrix 1 1) 0 0 = 1"
    by (simp_all add: start_state_def const_matrix_def)
  from build_A_frame [OF wf W, of 1 diag_inv "\<lambda>i. [1]" "\<lambda>j. [0]" "[const_matrix 1 2]" 1]
  obtain s1 a s' where "cell4 1 1 ?s = (s1, None)" "A_ref s1 = Some a"
    "a \<noteq> W_ref ?s" "a \<noteq> eig_vects_ref ?s"
    "fst (build_A diag_inv (\<lambda>i. [1]) (\<lambda>j. [0]) [const_matrix 1 2] 1 1 1 ?s) = s'"
    "A_ref s' = Some a"
    "\<forall>i<1. \<forall>j<1. ent (heap s' a) i j = ent (heap ?s (W_ref ?s)) i j"
    "heap s' (W_ref ?s) = heap ?s (W_ref ?s)" "eig_vals_var s' = eig_vals_var ?s"
    "heap s' (eig_vects_ref ?s) = heap ?s (eig_vects_ref ?s)"
    by (elim exE conjE)
  then have "cell4 1 1 ?s = (s1, None)" "A_ref s1 = Some a" "a \<noteq> 0" "a \<noteq> 1"
    "fst (build_A diag_inv (\<lambda>i. [1]) (\<lambda>j. [0]) [const_matrix 1 2] 1 1 1 ?s) = s'"
    "A_ref s' = Some a" "ent (heap s' a) 0 0 = 1"
    "heap s' 0 = const_matrix 1 1" "heap s' 1 = const_matrix 1 1" "eig_vals_var s' = [1]"
    unfolding v by (simp_all add: const_matrix_def)
  then have "\<exists>s1 a s'. cell4 1 1 ?s = (s1, None)
          \<and> A_ref s1 = Some a \<and> a \<noteq> 0 \<and> a \<noteq> 1
          \<and> fst (build_A diag_inv (\<lambda>i. [1]) (\<lambda>j. [0]) [const_matrix 1 2] 1 1 1 ?s) = s'
          \<and> A_ref s' = Some a \<and> ent (heap s' a) 0 0 = 1
          \<and> heap s' 0 = const_matrix 1 1 \<and> heap s' 1 = const_matrix 1 1
          \<and> eig_vals_var s' = [1]"
    by (intro exI [of _ s1] exI [of _ a] exI [of _ s'] conjI)
  with wf show ?thesis
    by (rule conjI)
qed

section \<open>Covariances that cannot be inverted, or only badly\<close>




lemma diag_inv_one:
  "\<exists>X. diag_inv (const_matrix 1 1) = Inr X \<and> nrows X = 1 \<and> ncols X = 1 \<and> ent X 0 0 = 1"
  by (simp add: diag_inv_def const_matrix_def)







section \<open>A training sample as its own test query\<close>

lemma psi_A_tilde:
  assumes "ncols A = m" "A_tilde m A = Inr At"
  shows "psi ev phi At j i
           = (1 / sqrt (ev ! j)) * (\<Sum>k<m. ent A i k * (1 / sqrt (degree m A k)) * ent phi k j)"
proof -
  from A_tilde_shape_entries [OF assms(1)] assms(2)
  have At: "ncols At = m" "\<forall>i j. j < m \<longrightarrow> ent At i j = ent A i j * (1 / sqrt (degree m A j))"
    by auto
  have "(\<Sum>k<m. ent At i k * ent phi k j)
          = (\<Sum>k<m. ent A i k * (1 / sqrt (degree m A k)) * ent phi k j)"
    by (rule sum.cong) (simp_all add: At(2))
  then show ?thesis
    by (simp add: psi_def At(1))
qed

lemma psi_same_rows:
  assumes "ncols A = m" "A_tilde m A = Inr At" "\<forall>k<m. ent A r k = ent A t k"
  shows "psi ev phi At j r = psi ev phi At j t"
proof -
  have "(\<Sum>k<m. ent A r k * (1 / sqrt (degree m A k)) * ent phi k j)
          = (\<Sum>k<m. ent A t k * (1 / sqrt (degree m A k)) * ent phi k j)"
    by (rule sum.cong) (simp_all add: assms(3))
  then show ?thesis
    by (simp add: psi_A_tilde [OF assms(1,2)])
qed

lemma psi_training_row:
  assumes A: "ncols A = m" "A_tilde m A = Inr At"
    and t: "t < m"
    and eig: "is_eigenpair m A (ev ! j) phi j"
    and lam: "0 < ev ! j"
    and deg: "\<forall>k<m. degree m A k = c"
  shows "psi ev phi At j t = sqrt (ev ! j) * ent phi t j / sqrt c"
proof -
  have "(\<Sum>k<m. ent A t k * (1 / sqrt (degree m A k)) * ent phi k j)
          = (\<Sum>k<m. (1 / sqrt c) * (ent A t k * ent phi k j))"
    by (rule sum.cong) (simp_all add: deg)
  also have "\<dots> = (1 / sqrt c) * (\<Sum>k<m. ent A t k * ent phi k j)"
    by (simp only: sum_distrib_left)
  also have "(\<Sum>k<m. ent A t k * ent phi k j) = ev ! j * ent phi t j"
    using eig t by (simp add: is_eigenpair_def)
  finally have p: "psi ev phi At j t
      = (1 / sqrt (ev ! j)) * ((1 / sqrt c) * (ev ! j * ent phi t j))"
    by (simp only: psi_A_tilde [OF A])
  have alg: "(1 / l) * ((1 / s) * ((l * l) * x)) = l * x / s" if "l \<noteq> 0" for l s x :: real
    using that by (simp add: field_simps)
  have l: "sqrt (ev ! j) \<noteq> 0" "ev ! j = sqrt (ev ! j) * sqrt (ev ! j)"
    using lam by simp_all
  have "(1 / sqrt (ev ! j)) * ((1 / sqrt c) * (ev ! j * ent phi t j))
          = (1 / sqrt (ev ! j)) * ((1 / sqrt c) * ((sqrt (ev ! j) * sqrt (ev ! j)) * ent phi t j))"
    using l(2) by simp
  also have "\<dots> = sqrt (ev ! j) * ent phi t j / sqrt c"
    by (rule alg [OF l(1)])
  finally show ?thesis
    using p by simp
qed

lemma is_eigenpair_top_block:
  assumes "\<forall>i<m. \<forall>k<m. ent A i k = ent W i k"
  shows "is_eigenpair m A lam phi j = is_eigenpair m W lam phi j"
proof -
  have "(\<Sum>k<m. ent A i k * ent phi k j) = (\<Sum>k<m. ent W i k * ent phi k j)" if "i < m" for i
    using assms that by (intro sum.cong refl) simp
  then show ?thesis
    by (simp add: is_eigenpair_def)
qed

text \<open>
  C4, as the code has it. A training sample \<open>t\<close> is reinserted as the test query \<open>i\<close>:
  the feature vectors are identical, and row \<open>t\<close> of \<^verbatim>\<open>W\<close> holds the values of the kernel
  of the loop body for the training feature vector \<open>t\<close>. Then cells 4 and 5 make row
  \<open>m + i\<close> of \<^verbatim>\<open>A\<close> equal to its row \<open>t\<close>, and with positive column degrees and a
  positive eigenvalue \<open>\<lambda>\<^sub>j\<close> the coordinate \<open>\<psi>\<^sub>j\<close> of the query equals the coordinate \<open>\<psi>\<^sub>j\<close>
  of the training row exactly. The coordinate of the training row is
  \<open>(1 / sqrt \<lambda>\<^sub>j) * (\<Sum>k. W[t,k] * \<phi>\<^sub>j[k] / sqrt S\<^sub>k)\<close>, with \<open>S\<^sub>k\<close> the degree of column \<open>k\<close> of
  \<^verbatim>\<open>A\<close>; when \<open>(\<lambda>\<^sub>j, \<phi>\<^sub>j)\<close> is an eigenpair of \<^verbatim>\<open>W\<close> and every column degree equals \<open>c\<close> it
  is \<open>sqrt \<lambda>\<^sub>j * \<phi>\<^sub>j[t] / sqrt c\<close>.
\<close>

theorem nystrom_round_trip:
  assumes W: "nrows (heap s (W_ref s)) = m" "ncols (heap s (W_ref s)) = m"
    and eps: "eps \<noteq> 0"
    and covs: "m \<le> length covs"
    and calls: "\<forall>j<m. \<exists>X. linv (covs ! j) = Inr X \<and> nrows X = D \<and> ncols X = D"
    and feats: "\<forall>i<M. length (ftest i) = D" "\<forall>j<m. length (fsrc j) = D"
    and t: "t < m" and i: "i < M" and same: "ftest i = fsrc t"
    and row: "\<forall>k<m. gauss_kernel linv eps (fsrc t) (fsrc k) (covs ! k)
                      = Inr (ent (heap s (W_ref s)) t k)"
  shows "\<exists>s' a At. build_A linv ftest fsrc covs eps m M s = (s', None) \<and> A_ref s' = Some a
           \<and> nrows (heap s' a) = m + M \<and> ncols (heap s' a) = m
           \<and> A_tilde m (heap s' a) = Inr At
           \<and> (\<forall>k<m. ent (heap s' a) (m + i) k = ent (heap s' a) t k)
           \<and> (\<forall>ev phi j c. (\<forall>k<m. 0 < degree m (heap s' a) k) \<and> 0 < ev ! j \<longrightarrow>
                  psi ev phi At j (m + i) = psi ev phi At j t
                \<and> psi ev phi At j t
                    = (1 / sqrt (ev ! j))
                      * (\<Sum>k<m. ent (heap s (W_ref s)) t k
                                 * (1 / sqrt (degree m (heap s' a) k)) * ent phi k j)
                \<and> (is_eigenpair m (heap s (W_ref s)) (ev ! j) phi j
                     \<and> (\<forall>k<m. degree m (heap s' a) k = c)
                   \<longrightarrow> psi ev phi At j t = sqrt (ev ! j) * ent phi t j / sqrt c))"
proof -
  define x where "x i j = projr (kernel_entry linv ftest fsrc covs eps i j)" for i j
  have "\<exists>v. kernel_entry linv ftest fsrc covs eps i j = Inr v" if "i < M" "j < m" for i j
  proof -
    from that covs have c: "j < length covs"
      by simp
    from calls that(2) obtain X where
      X: "linv (covs ! j) = Inr X" "nrows X = D" "ncols X = D"
      by blast
    from kernel_entry_value [where linv = linv and covs = covs and j = j and X = X and D = D
        and ftest = ftest and i = i and fsrc = fsrc and eps = eps, OF c X] feats that
    show ?thesis
      by simp
  qed
  then have k: "\<forall>i<M. \<forall>j<m. kernel_entry linv ftest fsrc covs eps i j = Inr (x i j)"
    unfolding x_def by fastforce
  from build_A_success [OF W k] obtain s' a where
    r: "build_A linv ftest fsrc covs eps m M s = (s', None)" "A_ref s' = Some a"
      "nrows (heap s' a) = m + M" "ncols (heap s' a) = m"
      "\<forall>i<m. \<forall>j<m. ent (heap s' a) i j = ent (heap s (W_ref s)) i j"
      "\<forall>i<M. \<forall>j<m. ent (heap s' a) (m + i) j = x i j"
    by blast
  from A_tilde_shape_entries [OF r(4)] obtain At where At: "A_tilde m (heap s' a) = Inr At"
    by blast
  have rows: "\<forall>k<m. ent (heap s' a) (m + i) k = ent (heap s' a) t k"
  proof (intro allI impI)
    fix k assume km: "k < m"
    with covs have c: "k < length covs"
      by simp
    have "kernel_entry linv ftest fsrc covs eps i k
        = gauss_kernel linv eps (fsrc t) (fsrc k) (covs ! k)"
      by (simp add: kernel_entry_gauss [OF c] same)
    with row km have "kernel_entry linv ftest fsrc covs eps i k = Inr (ent (heap s (W_ref s)) t k)"
      by simp
    with k i km have "x i k = ent (heap s (W_ref s)) t k"
      by simp
    with r(5,6) i t km show "ent (heap s' a) (m + i) k = ent (heap s' a) t k"
      by simp
  qed
  have top: "\<forall>i<m. \<forall>k<m. ent (heap s' a) i k = ent (heap s (W_ref s)) i k"
    by (rule r(5))
  have coords: "psi ev phi At j (m + i) = psi ev phi At j t
      \<and> psi ev phi At j t
          = (1 / sqrt (ev ! j))
            * (\<Sum>k<m. ent (heap s (W_ref s)) t k
                       * (1 / sqrt (degree m (heap s' a) k)) * ent phi k j)
      \<and> (is_eigenpair m (heap s (W_ref s)) (ev ! j) phi j
           \<and> (\<forall>k<m. degree m (heap s' a) k = c)
         \<longrightarrow> psi ev phi At j t = sqrt (ev ! j) * ent phi t j / sqrt c)"
    if "0 < ev ! j" for ev phi j c
  proof -
    have a: "psi ev phi At j (m + i) = psi ev phi At j t"
      by (rule psi_same_rows [OF r(4) At rows])
    have "(\<Sum>k<m. ent (heap s' a) t k * (1 / sqrt (degree m (heap s' a) k)) * ent phi k j)
        = (\<Sum>k<m. ent (heap s (W_ref s)) t k
                    * (1 / sqrt (degree m (heap s' a) k)) * ent phi k j)"
      using top t by (intro sum.cong refl) simp
    then have b: "psi ev phi At j t
          = (1 / sqrt (ev ! j))
            * (\<Sum>k<m. ent (heap s (W_ref s)) t k
                       * (1 / sqrt (degree m (heap s' a) k)) * ent phi k j)"
      by (simp add: psi_A_tilde [OF r(4) At])
    have "psi ev phi At j t = sqrt (ev ! j) * ent phi t j / sqrt c"
      if e: "is_eigenpair m (heap s (W_ref s)) (ev ! j) phi j"
        and d: "\<forall>k<m. degree m (heap s' a) k = c"
    proof -
      from e have "is_eigenpair m (heap s' a) (ev ! j) phi j"
        by (simp add: is_eigenpair_top_block [OF top])
      from psi_training_row [OF r(4) At t this \<open>0 < ev ! j\<close> d] show ?thesis .
    qed
    with a b show ?thesis
      by blast
  qed
  show ?thesis
    using r(1-4) At rows coords by blast
qed

lemma sum_lessThan_4: "(\<Sum>r<4. f r) = f 0 + f (Suc 0) + f 2 + f 3"
  by (simp add: eval_nat_numeral)

lemma exp_pair_distance: "exp (- (sqrt (ln (4 / 3)) * sqrt (ln (4 / 3)))) = 3 / (4::real)"
proof -
  have "0 \<le> ln (4 / 3 :: real)"
    by simp
  then have "sqrt (ln (4 / 3)) * sqrt (ln (4 / 3)) = ln (4 / 3 :: real)"
    by simp
  then show ?thesis
    by (simp add: exp_minus)
qed

lemma sqrt_values:
  "sqrt (1 / 4) = 1 / 2" "sqrt (49 / 4) = 7 / 2" "sqrt (7 / 4) = sqrt 7 / 2"
  "sqrt (49 / 8) * sqrt 2 = 7 / 2"
proof -
  show "sqrt (1 / 4) = 1 / 2"
    by (rule real_sqrt_unique) (simp_all add: power2_eq_square)
  show q: "sqrt (49 / 4) = 7 / 2"
    by (rule real_sqrt_unique) (simp_all add: power2_eq_square)
  have "sqrt (7 / 4) = sqrt 7 / sqrt 4"
    by (rule real_sqrt_divide)
  moreover have "sqrt 4 = 2"
    by (rule real_sqrt_unique) (simp_all add: power2_eq_square)
  ultimately show "sqrt (7 / 4) = sqrt 7 / 2"
    by simp
  have "sqrt (49 / 8) * sqrt 2 = sqrt (49 / 8 * 2)"
    by (rule real_sqrt_mult [symmetric])
  with q show "sqrt (49 / 8) * sqrt 2 = 7 / 2"
    by simp
qed

lemma pair_kernel:
  "gauss_kernel diag_inv 1 (pair_feature i) (pair_feature j) (const_matrix 1 1)
     = Inr (if (i = 0) = (j = 0) then 1 else 3 / 4)"
proof -
  from diag_inv_one obtain X where
    X: "diag_inv (const_matrix 1 1) = Inr X" "nrows X = 1" "ncols X = 1" "ent X 0 0 = 1"
    by (elim exE conjE)
  have len: "length (pair_feature i) = 1" for i
    by (simp add: pair_feature_def)
  have "gauss_kernel diag_inv 1 (pair_feature i) (pair_feature j) (const_matrix 1 1)
      = Inr (exp (- mahalanobis_sq 1 (pair_feature i) (pair_feature j) X / 1))"
    by (rule gauss_kernel_value [where linv = diag_inv and D = 1, OF X(1,2,3) len len])
  moreover have "exp (- mahalanobis_sq 1 (pair_feature i) (pair_feature j) X / 1)
      = (if (i = 0) = (j = 0) then 1 else 3 / 4)"
    using X(4) exp_pair_distance by (simp add: mahalanobis_sq_def pair_feature_def)
  ultimately show ?thesis
    by simp
qed

lemma pair_run:
  "\<exists>s' a. build_A diag_inv pair_feature pair_feature [const_matrix 1 1, const_matrix 1 1] 1 2 2
              (start_state pair_W [7 / 4, 1 / 4]) = (s', None)
      \<and> A_ref s' = Some a \<and> nrows (heap s' a) = 4 \<and> ncols (heap s' a) = 2
      \<and> ent (heap s' a) 0 0 = 1 \<and> ent (heap s' a) 0 (Suc 0) = 3 / 4
      \<and> ent (heap s' a) (Suc 0) 0 = 3 / 4 \<and> ent (heap s' a) (Suc 0) (Suc 0) = 1
      \<and> ent (heap s' a) 2 0 = 1 \<and> ent (heap s' a) 2 (Suc 0) = 3 / 4
      \<and> ent (heap s' a) 3 0 = 3 / 4 \<and> ent (heap s' a) 3 (Suc 0) = 1"
proof -
  let ?s = "start_state pair_W [7 / 4, 1 / 4]"
  let ?covs = "[const_matrix 1 1, const_matrix 1 1]"
  have W: "nrows (heap ?s (W_ref ?s)) = 2" "ncols (heap ?s (W_ref ?s)) = 2"
    and hW: "heap ?s (W_ref ?s) = pair_W"
    by (simp_all add: start_state_def pair_W_def matrix_of_rows_def)
  have nth: "?covs ! j = const_matrix 1 1" if "j < 2" for j
    using that by (auto simp add: less_2_cases_iff)
  have k: "\<forall>i<2. \<forall>j<2. kernel_entry diag_inv pair_feature pair_feature ?covs 1 i j
      = Inr ((\<lambda>i j. if (i = 0) = (j = 0) then 1 else 3 / 4) i j)"
  proof (intro allI impI)
    fix i j :: nat
    assume "i < 2" and j: "j < 2"
    then have "j < length ?covs"
      by simp
    show "kernel_entry diag_inv pair_feature pair_feature ?covs 1 i j
        = Inr ((\<lambda>i j. if (i = 0) = (j = 0) then 1 else 3 / 4) i j)"
      unfolding kernel_entry_gauss [OF \<open>j < length ?covs\<close>] nth [OF j] by (rule pair_kernel)
  qed
  from build_A_success [OF W k] obtain s' a where
    r: "build_A diag_inv pair_feature pair_feature ?covs 1 2 2 ?s = (s', None)"
      "A_ref s' = Some a" "nrows (heap s' a) = 2 + 2" "ncols (heap s' a) = 2"
      "\<forall>i<2. \<forall>j<2. ent (heap s' a) i j = ent (heap ?s (W_ref ?s)) i j"
      "\<forall>i<2. \<forall>j<2. ent (heap s' a) (2 + i) j = (if (i = 0) = (j = 0) then 1 else 3 / 4)"
    by (elim exE conjE)
  from r(3) have n: "nrows (heap s' a) = 4"
    by simp
  from r(5) have t: "ent (heap s' a) 0 0 = 1" "ent (heap s' a) 0 (Suc 0) = 3 / 4"
    "ent (heap s' a) (Suc 0) 0 = 3 / 4" "ent (heap s' a) (Suc 0) (Suc 0) = 1"
    by (simp_all add: hW all_less_2) (simp_all add: pair_W_def matrix_of_rows_def)
  from r(6) have b: "ent (heap s' a) 2 0 = 1" "ent (heap s' a) 2 (Suc 0) = 3 / 4"
    "ent (heap s' a) 3 0 = 3 / 4" "ent (heap s' a) 3 (Suc 0) = 1"
    by (simp_all add: all_less_2 numeral_3_eq_3 numeral_2_eq_2)
  show ?thesis
    by (intro exI [of _ s'] exI [of _ a] conjI) (rule r(1) r(2) n r(4) t b)+
qed

lemma pair_degree:
  assumes "nrows A = 4"
    and "ent A 0 0 = 1" "ent A 0 (Suc 0) = 3 / 4" "ent A (Suc 0) 0 = 3 / 4"
      "ent A (Suc 0) (Suc 0) = 1" "ent A 2 0 = 1" "ent A 2 (Suc 0) = 3 / 4"
      "ent A 3 0 = 3 / 4" "ent A 3 (Suc 0) = 1"
  shows "degree 2 A 0 = 49 / 8" "degree 2 A (Suc 0) = 49 / 8"
  by (simp_all only: degree_def sum_lessThan_2 sum_lessThan_4 assms)

lemma pair_eigenpairs:
  "is_eigenpair 2 pair_W (7 / 4) pair_eig_vects 0"
  "is_eigenpair 2 pair_W (1 / 4) pair_eig_vects (Suc 0)"
  by (simp_all add: is_eigenpair_def pair_W_def pair_eig_vects_def matrix_of_rows_def
      sum_lessThan_2 all_less_2 Ball_def field_simps)

lemma pair_psi:
  assumes A: "ncols A = 2" "A_tilde 2 A = Inr At"
    and deg: "degree 2 A 0 = 49 / 8" "degree 2 A (Suc 0) = 49 / 8"
    and row: "ent A i 0 = 1" "ent A i (Suc 0) = 3 / 4"
  shows "psi [7 / 4, 1 / 4] pair_eig_vects At (Suc 0) i = 1 / 7"
    and "psi [7 / 4, 1 / 4] pair_eig_vects At 0 i = 1 / sqrt 7"
proof -
  have e: "ent pair_eig_vects 0 0 = 1 / sqrt 2" "ent pair_eig_vects (Suc 0) 0 = 1 / sqrt 2"
    "ent pair_eig_vects 0 (Suc 0) = 1 / sqrt 2" "ent pair_eig_vects (Suc 0) (Suc 0) = - (1 / sqrt 2)"
    by (simp_all add: pair_eig_vects_def matrix_of_rows_def)
  have s: "1 / sqrt (49 / 8) * (1 / sqrt 2) = 2 / (7::real)"
    using sqrt_values(4) by (simp add: field_simps)
  have "psi [7 / 4, 1 / 4] pair_eig_vects At (Suc 0) i
      = (1 / sqrt (1 / 4)) * ((1 - 3 / 4) * (1 / sqrt (49 / 8) * (1 / sqrt 2)))"
    by (simp add: psi_A_tilde [OF A] sum_lessThan_2 deg row e algebra_simps)
  also have "\<dots> = 1 / 7"
    unfolding s sqrt_values(1) by simp
  finally show "psi [7 / 4, 1 / 4] pair_eig_vects At (Suc 0) i = 1 / 7" .
  have "psi [7 / 4, 1 / 4] pair_eig_vects At 0 i
      = (1 / sqrt (7 / 4)) * ((1 + 3 / 4) * (1 / sqrt (49 / 8) * (1 / sqrt 2)))"
    by (simp add: psi_A_tilde [OF A] sum_lessThan_2 deg row e algebra_simps)
  also have "\<dots> = (1 / (sqrt 7 / 2)) * (1 / 2)"
    unfolding s sqrt_values(3) by simp
  also have "\<dots> = 1 / sqrt 7"
    by simp
  finally show "psi [7 / 4, 1 / 4] pair_eig_vects At 0 i = 1 / sqrt 7" .
qed

lemma pair_gaps:
  "1 / 2 < \<bar>1 / 7 - 1 / sqrt 2\<bar>" "1 / 5 < \<bar>1 / 7 - sqrt (1 / 4) * (1 / sqrt 2)\<bar>"
  "1 / 4 < \<bar>1 / sqrt 7 - 1 / sqrt 2\<bar>" "1 / 2 < \<bar>1 / sqrt 7 - sqrt (7 / 4) * (1 / sqrt 2)\<bar>"
proof -
  define p where "p = 1 / sqrt 2"
  define q where "q = 1 / sqrt 7"
  have s2: "sqrt 2 < 10 / 7"
    by (rule real_less_lsqrt) (simp_all add: power2_eq_square)
  have s7: "13 / 5 < sqrt 7"
    by (rule real_less_rsqrt) (simp add: power2_eq_square)
  have p: "7 / 10 < p"
    using s2 by (simp add: p_def field_simps)
  have q: "q < 5 / 13" "0 < q"
    using s7 by (simp_all add: q_def field_simps)
  from p show "1 / 2 < \<bar>1 / 7 - 1 / sqrt 2\<bar>"
    unfolding p_def [symmetric] by linarith
  from p show "1 / 5 < \<bar>1 / 7 - sqrt (1 / 4) * (1 / sqrt 2)\<bar>"
    unfolding p_def [symmetric] sqrt_values(1) by linarith
  from p q show "1 / 4 < \<bar>1 / sqrt 7 - 1 / sqrt 2\<bar>"
    unfolding p_def [symmetric] q_def [symmetric] by linarith
  have "(13 / 5 / 2) * (7 / 10) < (sqrt 7 / 2) * p"
    using s7 p by (intro mult_strict_mono) simp_all
  then have "91 / 100 < (sqrt 7 / 2) * p"
    by simp
  with q show "1 / 2 < \<bar>1 / sqrt 7 - sqrt (7 / 4) * (1 / sqrt 2)\<bar>"
    unfolding p_def [symmetric] q_def [symmetric] sqrt_values(3) by linarith
qed

lemma pair_W_entries:
  assumes "i < 2" "j < 2"
  shows "ent pair_W i j = (if (i = 0) = (j = 0) then 1 else 3 / 4)"
  using assms by (auto simp add: less_2_cases_iff pair_W_def matrix_of_rows_def)

lemma pair_training_affinity:
  "training_affinity diag_inv 1 pair_feature (\<lambda>i j. const_matrix 1 1) 2 pair_W"
  unfolding training_affinity_def
proof (intro conjI allI impI)
  show "nrows pair_W = 2" "ncols pair_W = 2"
    by (simp_all add: pair_W_def matrix_of_rows_def)
next
  fix i j :: nat
  assume "i < 2" "j < 2"
  then show "gauss_kernel diag_inv 1 (pair_feature i) (pair_feature j) (const_matrix 1 1)
      = Inr (ent pair_W i j)"
    by (simp only: pair_kernel pair_W_entries)
qed

text \<open>
  C4 as stated fails. Two training samples whose kernel value is \<open>3/4\<close>, so that \<^verbatim>\<open>W\<close>
  has the rows \<open>[1, 3/4]\<close> and \<open>[3/4, 1]\<close>, the eigenvalues \<open>7/4\<close> and \<open>1/4\<close> and the unit
  eigenvectors \<open>[1, 1] / sqrt 2\<close> and \<open>[1, -1] / sqrt 2\<close>; both samples are reinserted as
  test queries, with the same feature vectors and the same covariance. Cells 4, 5 and 7
  then give \<^verbatim>\<open>A\<close> the rows of \<^verbatim>\<open>W\<close> twice and every column the degree \<open>49/8\<close>. For the
  eigenpair 1, a coordinate of the embedding, the coordinate \<open>\<psi>\<^sub>1\<close> of the query and of
  the training row is \<open>1/7\<close>, while the training eigenvector coordinate is \<open>1 / sqrt 2\<close>
  and, scaled by \<open>sqrt \<lambda>\<close>, \<open>1 / (2 sqrt 2)\<close>; for the eigenpair 0 it is \<open>1 / sqrt 7\<close>
  against \<open>1 / sqrt 2\<close> and \<open>sqrt 7 / (2 sqrt 2)\<close>.
\<close>

theorem nystrom_round_trip_counterexample:
  "\<exists>s' a At.
      build_A diag_inv pair_feature pair_feature [const_matrix 1 1, const_matrix 1 1] 1 2 2
        (start_state pair_W [7 / 4, 1 / 4]) = (s', None)
    \<and> A_ref s' = Some a \<and> A_tilde 2 (heap s' a) = Inr At
    \<and> training_affinity diag_inv 1 pair_feature (\<lambda>i j. const_matrix 1 1) 2 pair_W
    \<and> is_eigenpair 2 pair_W (7 / 4) pair_eig_vects 0
    \<and> is_eigenpair 2 pair_W (1 / 4) pair_eig_vects 1
    \<and> ent pair_eig_vects 0 0 = 1 / sqrt 2 \<and> ent pair_eig_vects 0 1 = 1 / sqrt 2
    \<and> degree 2 (heap s' a) 0 = 49 / 8 \<and> degree 2 (heap s' a) 1 = 49 / 8
    \<and> psi [7 / 4, 1 / 4] pair_eig_vects At 1 2 = 1 / 7
    \<and> psi [7 / 4, 1 / 4] pair_eig_vects At 1 0 = 1 / 7
    \<and> 1 / 2 < \<bar>psi [7 / 4, 1 / 4] pair_eig_vects At 1 2 - ent pair_eig_vects 0 1\<bar>
    \<and> 1 / 5 < \<bar>psi [7 / 4, 1 / 4] pair_eig_vects At 1 0 - sqrt (1 / 4) * ent pair_eig_vects 0 1\<bar>
    \<and> psi [7 / 4, 1 / 4] pair_eig_vects At 0 2 = 1 / sqrt 7
    \<and> psi [7 / 4, 1 / 4] pair_eig_vects At 0 0 = 1 / sqrt 7
    \<and> 1 / 4 < \<bar>psi [7 / 4, 1 / 4] pair_eig_vects At 0 2 - ent pair_eig_vects 0 0\<bar>
    \<and> 1 / 2 < \<bar>psi [7 / 4, 1 / 4] pair_eig_vects At 0 0 - sqrt (7 / 4) * ent pair_eig_vects 0 0\<bar>"
proof -
  from pair_run obtain s' a where
    r: "build_A diag_inv pair_feature pair_feature [const_matrix 1 1, const_matrix 1 1] 1 2 2
          (start_state pair_W [7 / 4, 1 / 4]) = (s', None)"
      "A_ref s' = Some a" "nrows (heap s' a) = 4" "ncols (heap s' a) = 2"
    and e: "ent (heap s' a) 0 0 = 1" "ent (heap s' a) 0 (Suc 0) = 3 / 4"
      "ent (heap s' a) (Suc 0) 0 = 3 / 4" "ent (heap s' a) (Suc 0) (Suc 0) = 1"
      "ent (heap s' a) 2 0 = 1" "ent (heap s' a) 2 (Suc 0) = 3 / 4"
      "ent (heap s' a) 3 0 = 3 / 4" "ent (heap s' a) 3 (Suc 0) = 1"
    by (elim exE conjE)
  note deg = pair_degree [OF r(3) e]
  from A_tilde_shape_entries [OF r(4)] obtain At where At: "A_tilde 2 (heap s' a) = Inr At"
    by (elim exE conjE)
  note q1 = pair_psi [OF r(4) At deg e(5,6)]
  note t1 = pair_psi [OF r(4) At deg e(1,2)]
  have phi: "ent pair_eig_vects 0 0 = 1 / sqrt 2" "ent pair_eig_vects 0 1 = 1 / sqrt 2"
    by (simp_all add: pair_eig_vects_def matrix_of_rows_def)
  have eig: "is_eigenpair 2 pair_W (7 / 4) pair_eig_vects 0"
    "is_eigenpair 2 pair_W (1 / 4) pair_eig_vects 1"
    using pair_eigenpairs by simp_all
  have d: "degree 2 (heap s' a) 0 = 49 / 8" "degree 2 (heap s' a) 1 = 49 / 8"
    using deg by simp_all
  have p: "psi [7 / 4, 1 / 4] pair_eig_vects At 1 2 = 1 / 7"
    "psi [7 / 4, 1 / 4] pair_eig_vects At 1 0 = 1 / 7"
    "psi [7 / 4, 1 / 4] pair_eig_vects At 0 2 = 1 / sqrt 7"
    "psi [7 / 4, 1 / 4] pair_eig_vects At 0 0 = 1 / sqrt 7"
    using q1 t1 by simp_all
  have g: "1 / 2 < \<bar>psi [7 / 4, 1 / 4] pair_eig_vects At 1 2 - ent pair_eig_vects 0 1\<bar>"
    "1 / 5 < \<bar>psi [7 / 4, 1 / 4] pair_eig_vects At 1 0 - sqrt (1 / 4) * ent pair_eig_vects 0 1\<bar>"
    "1 / 4 < \<bar>psi [7 / 4, 1 / 4] pair_eig_vects At 0 2 - ent pair_eig_vects 0 0\<bar>"
    "1 / 2 < \<bar>psi [7 / 4, 1 / 4] pair_eig_vects At 0 0 - sqrt (7 / 4) * ent pair_eig_vects 0 0\<bar>"
    unfolding p phi by (rule pair_gaps)+
  show ?thesis
    by (intro exI [of _ s'] exI [of _ a] exI [of _ At] conjI)
      (rule r(1) r(2) At pair_training_affinity eig phi d p g)+
qed

theorem nystrom_round_trip_witness:
  "training_affinity diag_inv 1 pair_feature (\<lambda>i j. const_matrix 1 1) 2 pair_W
   \<and> is_eigenpair 2 pair_W (1 / 4) pair_eig_vects 1
   \<and> (\<exists>s' a At.
        build_A diag_inv pair_feature pair_feature [const_matrix 1 1, const_matrix 1 1] 1 2 2
          (start_state pair_W [7 / 4, 1 / 4]) = (s', None)
      \<and> A_ref s' = Some a \<and> A_tilde 2 (heap s' a) = Inr At
      \<and> ent (heap s' a) 2 1 = ent (heap s' a) 0 1
      \<and> degree 2 (heap s' a) 0 = 49 / 8 \<and> degree 2 (heap s' a) 1 = 49 / 8
      \<and> psi [7 / 4, 1 / 4] pair_eig_vects At 1 2 = psi [7 / 4, 1 / 4] pair_eig_vects At 1 0
      \<and> psi [7 / 4, 1 / 4] pair_eig_vects At 1 0
          = 1 / sqrt (1 / 4) * (1 * (1 / sqrt (49 / 8)) * (1 / sqrt 2)
                                + 3 / 4 * (1 / sqrt (49 / 8)) * (- (1 / sqrt 2)))
      \<and> psi [7 / 4, 1 / 4] pair_eig_vects At 1 0
          = sqrt (1 / 4) * ent pair_eig_vects 0 1 / sqrt (49 / 8))"
proof -
  let ?s = "start_state pair_W [7 / 4, 1 / 4]"
  let ?covs = "[const_matrix 1 1, const_matrix 1 1]"
  let ?ev = "[7 / 4, 1 / 4 :: real]"
  have W: "nrows (heap ?s (W_ref ?s)) = 2" "ncols (heap ?s (W_ref ?s)) = 2"
    and hW: "heap ?s (W_ref ?s) = pair_W"
    by (simp_all add: start_state_def pair_W_def matrix_of_rows_def)
  have eps: "(1::real) \<noteq> 0"
    by simp
  have covs: "2 \<le> length ?covs"
    by simp
  have nth: "?covs ! j = const_matrix 1 1" if "j < 2" for j
    using that by (auto simp add: less_2_cases_iff)
  have calls: "\<forall>j<2. \<exists>X. diag_inv (?covs ! j) = Inr X \<and> nrows X = 1 \<and> ncols X = 1"
  proof (intro allI impI)
    fix j :: nat
    assume "j < 2"
    from diag_inv_one show "\<exists>X. diag_inv (?covs ! j) = Inr X \<and> nrows X = 1 \<and> ncols X = 1"
      unfolding nth [OF \<open>j < 2\<close>] by blast
  qed
  have feats: "\<forall>i<2. length (pair_feature i) = 1" "\<forall>j<2. length (pair_feature j) = 1"
    by (simp_all add: pair_feature_def)
  have t: "(0::nat) < 2" and same: "pair_feature 0 = pair_feature 0"
    by simp_all
  have row: "\<forall>k<2. gauss_kernel diag_inv 1 (pair_feature 0) (pair_feature k) (?covs ! k)
      = Inr (ent (heap ?s (W_ref ?s)) 0 k)"
  proof (intro allI impI)
    fix k :: nat
    assume k: "k < 2"
    from pair_training_affinity t k
    show "gauss_kernel diag_inv 1 (pair_feature 0) (pair_feature k) (?covs ! k)
        = Inr (ent (heap ?s (W_ref ?s)) 0 k)"
      unfolding nth [OF k] hW training_affinity_def by blast
  qed
  from nystrom_round_trip [where s = ?s and m = 2 and M = 2 and D = 1 and eps = 1
      and covs = ?covs and linv = diag_inv and ftest = pair_feature and fsrc = pair_feature
      and t = 0 and i = 0, OF W eps covs calls feats t t same row]
  obtain s' a At where
    r: "build_A diag_inv pair_feature pair_feature ?covs 1 2 2 ?s = (s', None)"
      "A_ref s' = Some a" "nrows (heap s' a) = 2 + 2" "ncols (heap s' a) = 2"
      "A_tilde 2 (heap s' a) = Inr At"
      "\<forall>k<2. ent (heap s' a) (2 + 0) k = ent (heap s' a) 0 k"
    and coords: "\<forall>ev phi j c. (\<forall>k<2. 0 < degree 2 (heap s' a) k) \<and> 0 < ev ! j \<longrightarrow>
        psi ev phi At j (2 + 0) = psi ev phi At j 0
        \<and> psi ev phi At j 0
            = (1 / sqrt (ev ! j))
              * (\<Sum>k<2. ent (heap ?s (W_ref ?s)) 0 k
                         * (1 / sqrt (degree 2 (heap s' a) k)) * ent phi k j)
        \<and> (is_eigenpair 2 (heap ?s (W_ref ?s)) (ev ! j) phi j
             \<and> (\<forall>k<2. degree 2 (heap s' a) k = c)
           \<longrightarrow> psi ev phi At j 0 = sqrt (ev ! j) * ent phi 0 j / sqrt c)"
    by (elim exE conjE)
  from pair_run obtain s2 a2 where
    p: "build_A diag_inv pair_feature pair_feature ?covs 1 2 2 ?s = (s2, None)"
      "A_ref s2 = Some a2" "nrows (heap s2 a2) = 4"
    and e2: "ent (heap s2 a2) 0 0 = 1" "ent (heap s2 a2) 0 (Suc 0) = 3 / 4"
      "ent (heap s2 a2) (Suc 0) 0 = 3 / 4" "ent (heap s2 a2) (Suc 0) (Suc 0) = 1"
      "ent (heap s2 a2) 2 0 = 1" "ent (heap s2 a2) 2 (Suc 0) = 3 / 4"
      "ent (heap s2 a2) 3 0 = 3 / 4" "ent (heap s2 a2) 3 (Suc 0) = 1"
    by (elim exE conjE)
  from r(1) p(1) have "s2 = s'"
    by simp
  with p(2) r(2) have "a2 = a"
    by simp
  note e = e2 [unfolded \<open>s2 = s'\<close> \<open>a2 = a\<close>]
  note n = p(3) [unfolded \<open>s2 = s'\<close> \<open>a2 = a\<close>]
  note deg = pair_degree [OF n e]
  have pos: "\<forall>k<2. 0 < degree 2 (heap s' a) k"
    using deg by (simp add: all_less_2)
  have eq: "\<forall>k<2. degree 2 (heap s' a) k = 49 / 8"
    using deg by (simp add: all_less_2)
  have lam: "0 < ?ev ! 1"
    by simp
  have eig: "is_eigenpair 2 (heap ?s (W_ref ?s)) (?ev ! 1) pair_eig_vects 1"
    using pair_eigenpairs(2) by (simp add: hW)
  from coords have "(\<forall>k<2. 0 < degree 2 (heap s' a) k) \<and> 0 < ?ev ! 1 \<longrightarrow>
        psi ?ev pair_eig_vects At 1 (2 + 0) = psi ?ev pair_eig_vects At 1 0
        \<and> psi ?ev pair_eig_vects At 1 0
            = (1 / sqrt (?ev ! 1))
              * (\<Sum>k<2. ent (heap ?s (W_ref ?s)) 0 k
                         * (1 / sqrt (degree 2 (heap s' a) k)) * ent pair_eig_vects k 1)
        \<and> (is_eigenpair 2 (heap ?s (W_ref ?s)) (?ev ! 1) pair_eig_vects 1
             \<and> (\<forall>k<2. degree 2 (heap s' a) k = 49 / 8)
           \<longrightarrow> psi ?ev pair_eig_vects At 1 0 = sqrt (?ev ! 1) * ent pair_eig_vects 0 1 / sqrt (49 / 8))"
    by blast
  with pos lam eig eq have c: "psi ?ev pair_eig_vects At 1 (2 + 0) = psi ?ev pair_eig_vects At 1 0"
    "psi ?ev pair_eig_vects At 1 0
            = (1 / sqrt (?ev ! 1))
              * (\<Sum>k<2. ent (heap ?s (W_ref ?s)) 0 k
                         * (1 / sqrt (degree 2 (heap s' a) k)) * ent pair_eig_vects k 1)"
    "psi ?ev pair_eig_vects At 1 0 = sqrt (?ev ! 1) * ent pair_eig_vects 0 1 / sqrt (49 / 8)"
    by blast+
  have c1: "psi ?ev pair_eig_vects At 1 2 = psi ?ev pair_eig_vects At 1 0"
    using c(1) by simp
  have c2: "psi ?ev pair_eig_vects At 1 0
          = 1 / sqrt (1 / 4) * (1 * (1 / sqrt (49 / 8)) * (1 / sqrt 2)
                                + 3 / 4 * (1 / sqrt (49 / 8)) * (- (1 / sqrt 2)))"
    unfolding c(2) hW sum_lessThan_2 deg
    by (simp add: pair_W_def pair_eig_vects_def matrix_of_rows_def)
  have c3: "psi ?ev pair_eig_vects At 1 0 = sqrt (1 / 4) * ent pair_eig_vects 0 1 / sqrt (49 / 8)"
    using c(3) by simp
  have rows: "ent (heap s' a) 2 1 = ent (heap s' a) 0 1"
    using r(6) by simp
  have d: "degree 2 (heap s' a) 0 = 49 / 8" "degree 2 (heap s' a) 1 = 49 / 8"
    using deg by simp_all
  have eig': "is_eigenpair 2 pair_W (1 / 4) pair_eig_vects 1"
    using pair_eigenpairs(2) by simp
  have "\<exists>s' a At.
        build_A diag_inv pair_feature pair_feature ?covs 1 2 2 ?s = (s', None)
      \<and> A_ref s' = Some a \<and> A_tilde 2 (heap s' a) = Inr At
      \<and> ent (heap s' a) 2 1 = ent (heap s' a) 0 1
      \<and> degree 2 (heap s' a) 0 = 49 / 8 \<and> degree 2 (heap s' a) 1 = 49 / 8
      \<and> psi ?ev pair_eig_vects At 1 2 = psi ?ev pair_eig_vects At 1 0
      \<and> psi ?ev pair_eig_vects At 1 0
          = 1 / sqrt (1 / 4) * (1 * (1 / sqrt (49 / 8)) * (1 / sqrt 2)
                                + 3 / 4 * (1 / sqrt (49 / 8)) * (- (1 / sqrt 2)))
      \<and> psi ?ev pair_eig_vects At 1 0 = sqrt (1 / 4) * ent pair_eig_vects 0 1 / sqrt (49 / 8)"
    by (intro exI [of _ s'] exI [of _ a] exI [of _ At] conjI)
      (rule r(1) r(2) r(5) rows d c1 c2 c3)+
  with pair_training_affinity eig' show ?thesis
    by (intro conjI)
qed

section \<open>The ground truth and the predictions\<close>

lemma same_shape_guard:
  assumes "same_shape gt1 gt2"
  shows "(i < length gt1 \<and> 2 < length (gt1 ! i)) = (i < length gt2 \<and> 2 < length (gt2 ! i))"
proof -
  from assms have len: "length gt1 = length gt2"
    unfolding same_shape_def by (rule map_eq_imp_length_eq)
  have "length (gt1 ! i) = length (gt2 ! i)" if "i < length gt1"
    using assms that len unfolding same_shape_def by (metis nth_map)
  with len show ?thesis
    by auto
qed

lemma cell9_body_noninterference:
  assumes "same_shape gt1 gt2" "thetas_pred l1 = thetas_pred l2"
  shows "thetas_pred (fst (cell9_body est sv tf tr gt1 i l1))
           = thetas_pred (fst (cell9_body est sv tf tr gt2 i l2))
         \<and> snd (cell9_body est sv tf tr gt1 i l1) = snd (cell9_body est sv tf tr gt2 i l2)"
  using assms(2) same_shape_guard [OF assms(1), of i]
  by (cases "est i sv tf tr") (simp_all add: cell9_body_def Let_def)

lemma for_loop_two_runs:
  assumes "\<And>x s1 s2. R s1 s2 \<Longrightarrow>
      R (fst (b1 x s1)) (fst (b2 x s2)) \<and> snd (b1 x s1) = snd (b2 x s2)"
    and "R s1 s2"
  shows "R (fst (for_loop b1 xs s1)) (fst (for_loop b2 xs s2))
         \<and> snd (for_loop b1 xs s1) = snd (for_loop b2 xs s2)"
  using assms(2)
proof (induction xs arbitrary: s1 s2)
  case Nil
  then show ?case by simp
next
  case (Cons x xs)
  from assms(1) [OF Cons.prems, of x]
  have step: "R (fst (b1 x s1)) (fst (b2 x s2))" "snd (b1 x s1) = snd (b2 x s2)"
    by simp_all
  obtain t1 r1 where b1: "b1 x s1 = (t1, r1)" by (cases "b1 x s1")
  obtain t2 r2 where b2: "b2 x s2 = (t2, r2)" by (cases "b2 x s2")
  from step b1 b2 have R: "R t1 t2" and b2': "b2 x s2 = (t2, r1)"
    by simp_all
  show ?case
  proof (cases r1)
    case None
    with b1 b2' Cons.IH [OF R] show ?thesis by simp
  next
    case (Some e)
    with b1 b2' R show ?thesis by simp
  qed
qed

lemma cell9_value:
  assumes est: "\<forall>i<M. est i sv tf tr = Inr (p i)"
    and gt: "\<forall>i<M. i < length gt \<and> 2 < length (gt ! i)"
  shows "cell9 est M sv tf tr gt
           = (\<lparr>thetas_pred = map p [0..<M],
               thetas_gt = map (\<lambda>i. [gt ! i ! 1, gt ! i ! 2]) [0..<M]\<rparr>, None)"
proof -
  define I where "I n l \<longleftrightarrow> l = \<lparr>thetas_pred = map p [0..<n],
      thetas_gt = map (\<lambda>i. [gt ! i ! 1, gt ! i ! 2]) [0..<n]\<rparr>" for n l
  have init: "I 0 \<lparr>thetas_pred = [], thetas_gt = []\<rparr>"
    by (simp add: I_def)
  have step: "\<exists>l'. cell9_body est sv tf tr gt n l = (l', None) \<and> I (Suc n) l'"
    if "n < M" "I n l" for n l
    using that est gt by (simp add: cell9_body_def I_def Let_def)
  from for_range_success [where I = I and n = M and body = "cell9_body est sv tf tr gt"
      and s = "\<lparr>thetas_pred = [], thetas_gt = []\<rparr>", OF init step]
  show ?thesis
    by (simp add: cell9_def I_def)
qed

text \<open>
  C8. Cell 9 passes the embedding, the training feature vectors and the training angles
  to \<^verbatim>\<open>estimate_theta_i\<close> and never the ground truth: for any \<^verbatim>\<open>estimate_theta_i\<close> that
  is a function of its arguments, two runs whose ground truths \<^verbatim>\<open>test_Set_spherical\<close>
  have the same shape and differ in the angles only produce the same list
  \<^verbatim>\<open>thetas_pred\<close> and the same outcome; the ground truth only enters \<^verbatim>\<open>thetas_gt\<close>,
  the other argument of \<^verbatim>\<open>rmse\<close>. When every call returns and the ground truth has a row
  of three entries for each test sample, \<^verbatim>\<open>thetas_pred\<close> is the list of the values of
  \<^verbatim>\<open>estimate_theta_i\<close> and \<^verbatim>\<open>thetas_gt\<close> the list of the ground-truth angle pairs.
\<close>

theorem predictions_ignore_ground_truth:
  assumes "same_shape gt1 gt2"
  shows "thetas_pred (fst (cell9 est M sv tf tr gt1)) = thetas_pred (fst (cell9 est M sv tf tr gt2))
         \<and> snd (cell9 est M sv tf tr gt1) = snd (cell9 est M sv tf tr gt2)
         \<and> ((\<forall>i<M. est i sv tf tr = Inr (p i)) \<and> (\<forall>i<M. i < length gt1 \<and> 2 < length (gt1 ! i))
              \<longrightarrow> cell9 est M sv tf tr gt1
                    = (\<lparr>thetas_pred = map p [0..<M],
                        thetas_gt = map (\<lambda>i. [gt1 ! i ! 1, gt1 ! i ! 2]) [0..<M]\<rparr>, None))"
proof -
  have "thetas_pred (fst (cell9 est M sv tf tr gt1)) = thetas_pred (fst (cell9 est M sv tf tr gt2))
      \<and> snd (cell9 est M sv tf tr gt1) = snd (cell9 est M sv tf tr gt2)"
    unfolding cell9_def
    by (rule for_loop_two_runs [where R = "\<lambda>l1 l2. thetas_pred l1 = thetas_pred l2"])
      (simp_all add: cell9_body_noninterference [OF assms])
  moreover have "cell9 est M sv tf tr gt1
      = (\<lparr>thetas_pred = map p [0..<M],
          thetas_gt = map (\<lambda>i. [gt1 ! i ! 1, gt1 ! i ! 2]) [0..<M]\<rparr>, None)"
    if "\<forall>i<M. est i sv tf tr = Inr (p i)" "\<forall>i<M. i < length gt1 \<and> 2 < length (gt1 ! i)"
    using that by (rule cell9_value)
  ultimately show ?thesis
    by blast
qed

theorem predictions_ignore_ground_truth_witness:
  "same_shape [[1, 2, 3]] [[1, 5, 6]]
   \<and> thetas_pred (fst (cell9 (\<lambda>i sv tf tr. Inr [0, 0]) 1 (const_matrix 1 0) [] [] [[1, 2, 3]]))
       = thetas_pred (fst (cell9 (\<lambda>i sv tf tr. Inr [0, 0]) 1 (const_matrix 1 0) [] [] [[1, 5, 6]]))
   \<and> cell9 (\<lambda>i sv tf tr. Inr [0, 0]) 1 (const_matrix 1 0) [] [] [[1, 2, 3]]
       = (\<lparr>thetas_pred = [[0, 0]], thetas_gt = [[2, 3]]\<rparr>, None)"
proof -
  have sh: "same_shape [[1, 2, 3::real]] [[1, 5, 6]]"
    by (simp add: same_shape_def)
  have est: "\<forall>i<1. (\<lambda>i sv tf tr. Inr [0, 0::real]) i (const_matrix 1 0) ([]::vec list) ([]::vec list)
      = (Inr ((\<lambda>i. [0, 0]) i) :: error + vec)"
    by simp
  have gt: "\<forall>i<1. i < length [[1, 2, 3::real]] \<and> 2 < length ([[1, 2, 3::real]] ! i)"
    by simp
  from predictions_ignore_ground_truth [OF sh, of "\<lambda>i sv tf tr. Inr [0, 0]" 1 "const_matrix 1 0"
      "[]" "[]" "\<lambda>i. [0, 0]"] est gt
  have "thetas_pred (fst (cell9 (\<lambda>i sv tf tr. Inr [0, 0]) 1 (const_matrix 1 0) [] [] [[1, 2, 3]]))
       = thetas_pred (fst (cell9 (\<lambda>i sv tf tr. Inr [0, 0]) 1 (const_matrix 1 0) [] [] [[1, 5, 6]]))"
    and "cell9 (\<lambda>i sv tf tr. Inr [0, 0]) 1 (const_matrix 1 0) [] [] [[1, 2, 3]]
       = (\<lparr>thetas_pred = map (\<lambda>i. [0, 0]) [0..<1],
           thetas_gt = map (\<lambda>i. [[[1, 2, 3]] ! i ! 1, [[1, 2, 3]] ! i ! 2]) [0..<1]\<rparr>, None)"
    by blast+
  with sh show ?thesis
    by simp
qed

end
